theory Spec2Isabelle
  imports Main "HOL-Library.AList" "HOL-Library.Sublist"
begin

section \<open>Data model of \<open>src/server.ts\<close>\<close>

text \<open>
  The class \<open>MetroService\<close> keeps a registry (a JavaScript \<open>Map\<close> from appId to
  \<open>MetroInstance\<close>), a port pool and a cursor. It acts on three external resources:
  child processes, ngrok tunnels and the file system. The model threads one state through
  every method: the three fields of the class and the resources the methods touch.

  A \<open>ChildProcess\<close> is an object reference in the source. Here it is a handle (\<open>pid\<close>)
  into a process table, so that a process outlives the registry record that pointed to it.
  \<open>signals\<close> are the signals the child has received, \<open>killed\<close> is the flag of the
  handle, and \<open>exited\<close> says that the child is not running: it has exited, or it never
  started. A \<open>MetroInstance\<close> is an object too; each one owns the handle of the process
  that was spawned for it, and that handle tells the objects apart.
\<close>

datatype signal = SIGTERM | SIGKILL

type_synonym pid = nat

text \<open>A path is the list of its segments below the root: \<open>/tmp/metro-apps\<close> is
  \<open>[''tmp'', ''metro-apps'']\<close>.\<close>

type_synonym path = "string list"

datatype node = Dir | File string

record ChildProcess =
  cwd :: path
  portArg :: nat
  signals :: "signal list"
  killed :: bool
  exited :: bool

record MetroInstance =
  appId :: string
  appName :: string
  process :: pid
  workspaceDir :: path
  port :: nat
  tunnelUrl :: "string option"
  bundleUrl :: "string option"
  startTime :: int
  lastAccess :: int
  isReady :: bool

text \<open>
  \<open>instances\<close> is the \<open>Map\<close>, in insertion order; \<open>map_of\<close> is \<open>Map.get\<close>,
  \<open>AList.update\<close> is \<open>Map.set\<close> (an existing key keeps its place, a new one goes last)
  and \<open>AList.delete\<close> is \<open>Map.delete\<close>. The next five fields are the outside world:
  the process table with the next free handle, the forced-kill timers that have been set,
  the open tunnels and the file system. \<open>crashed\<close> says that the service itself has died
  of an uncaught exception; nothing is served after that.
\<close>

record state =
  instances :: "(string \<times> MetroInstance) list"
  portPool :: "nat list"
  currentPortIndex :: nat
  procs :: "pid \<rightharpoonup> ChildProcess"
  nextPid :: pid
  killTimers :: "pid list"
  tunnels :: "string list"
  fs :: "path \<rightharpoonup> node"
  crashed :: bool

definition METRO_TIMEOUT :: int where
  "METRO_TIMEOUT = 15 * 60 * 1000"

definition PORT_RANGE_START :: nat where
  "PORT_RANGE_START = 8081"

definition PORT_RANGE_END :: nat where
  "PORT_RANGE_END = 8180"

definition WORKSPACE_BASE :: path where
  "WORKSPACE_BASE = [''tmp'', ''metro-apps'']"

section \<open>Port allocator\<close>

text \<open>\<open>initializePortPool\<close>: the loop \<open>for (port = START; port <= END; port++) push(port)\<close>.\<close>

definition initializePortPool :: "state \<Rightarrow> state" where
  "initializePortPool s =
     s\<lparr>portPool := portPool s @ [PORT_RANGE_START ..< Suc PORT_RANGE_END]\<rparr>"

text \<open>\<open>getNextPort\<close>: \<open>None\<close> is the source's \<open>null\<close>.\<close>

definition getNextPort :: "state \<Rightarrow> nat option \<times> state" where
  "getNextPort s =
     (if length (portPool s) = 0 then (None, s)
      else (Some (portPool s ! (currentPortIndex s mod length (portPool s))),
            s\<lparr>currentPortIndex := (currentPortIndex s + 1) mod length (portPool s)\<rparr>))"

section \<open>Stop, status and the reaper\<close>

text \<open>JavaScript truthiness of an optional string: \<open>undefined\<close> and \<open>""\<close> are falsy.\<close>

fun truthy :: "string option \<Rightarrow> bool" where
  "truthy None = False"
| "truthy (Some u) = (u \<noteq> [])"

text \<open>
  \<open>ChildProcess.kill(sig)\<close> has three outcomes. On a child that is not running it
  returns false and does nothing. Otherwise it may throw (\<open>throws p\<close>: the operating
  system refuses the signal and the \<open>'error'\<close> event it emits has no listener), which is
  \<open>None\<close> here; or the signal is delivered and the \<open>killed\<close> flag of the handle is set.
\<close>

definition kill :: "(pid \<Rightarrow> bool) \<Rightarrow> pid \<Rightarrow> signal \<Rightarrow> state \<Rightarrow> state option" where
  "kill throws p sg s =
     (case procs s p of
        None \<Rightarrow> Some s
      | Some cp \<Rightarrow>
          (if exited cp then Some s
           else if throws p then None
           else Some (s\<lparr>procs := (procs s)(p \<mapsto> cp\<lparr>signals := signals cp @ [sg],
                                                      killed := True\<rparr>)\<rparr>)))"

text \<open>A child exits on its own (it crashes, or it ends after a signal). The \<open>'exit'\<close>
  listener of the source only logs; the registry is not touched.\<close>

definition childExit :: "pid \<Rightarrow> state \<Rightarrow> state" where
  "childExit p s =
     (case procs s p of
        None \<Rightarrow> s
      | Some cp \<Rightarrow> s\<lparr>procs := (procs s)(p \<mapsto> cp\<lparr>exited := True\<rparr>)\<rparr>)"

text \<open>
  \<open>stopMetro\<close>. The source wraps the kill, the forced-kill timer and the tunnel disconnect
  in one \<open>try\<close>, logs whatever is thrown, and deletes the record in either case. When
  \<open>kill\<close> throws, the timer and the disconnect are skipped; when it returns (true or
  false), the timer is set and the tunnel is disconnected.
\<close>

definition stopMetro :: "(pid \<Rightarrow> bool) \<Rightarrow> string \<Rightarrow> state \<Rightarrow> bool \<times> state" where
  "stopMetro throws aid s =
     (case map_of (instances s) aid of
        None \<Rightarrow> (False, s)
      | Some inst \<Rightarrow>
          (let s1 = (case kill throws (process inst) SIGTERM s of
                       None \<Rightarrow> s
                     | Some s2 \<Rightarrow>
                         (let s3 = s2\<lparr>killTimers := killTimers s2 @ [process inst]\<rparr>
                          in (if truthy (tunnelUrl inst)
                              then s3\<lparr>tunnels := removeAll (the (tunnelUrl inst)) (tunnels s3)\<rparr>
                              else s3)))
           in (True, s1\<lparr>instances := AList.delete aid (instances s1)\<rparr>)))"

record InstanceStatus =
  statusAppId :: string
  statusAppName :: string
  statusPort :: nat
  statusTunnelUrl :: "string option"
  statusBundleUrl :: "string option"
  statusIsReady :: bool
  uptime :: int
  idleTime :: int

text \<open>\<open>getStatus\<close>: \<open>None\<close> is \<open>null\<close>; \<open>now\<close> is the clock read by \<open>new Date()\<close>.\<close>

definition getStatus :: "int \<Rightarrow> string \<Rightarrow> state \<Rightarrow> InstanceStatus option" where
  "getStatus now aid s =
     (case map_of (instances s) aid of
        None \<Rightarrow> None
      | Some inst \<Rightarrow>
          Some \<lparr>statusAppId = appId inst, statusAppName = appName inst,
                statusPort = port inst, statusTunnelUrl = tunnelUrl inst,
                statusBundleUrl = bundleUrl inst, statusIsReady = isReady inst,
                uptime = now - startTime inst, idleTime = now - lastAccess inst\<rparr>)"

text \<open>\<open>cleanupInactiveInstances\<close>: the first loop collects the idle appIds, the second
  stops each of them.\<close>

definition idle :: "int \<Rightarrow> string \<times> MetroInstance \<Rightarrow> bool" where
  "idle now e = (now - lastAccess (snd e) > METRO_TIMEOUT)"

definition inactiveInstances :: "int \<Rightarrow> state \<Rightarrow> string list" where
  "inactiveInstances now s = map fst (filter (idle now) (instances s))"

definition stopAll :: "(pid \<Rightarrow> bool) \<Rightarrow> string list \<Rightarrow> state \<Rightarrow> state" where
  "stopAll throws aids s = fold (\<lambda>aid s'. snd (stopMetro throws aid s')) aids s"

definition cleanupInactiveInstances :: "(pid \<Rightarrow> bool) \<Rightarrow> int \<Rightarrow> state \<Rightarrow> state" where
  "cleanupInactiveInstances throws now s = stopAll throws (inactiveInstances now s) s"

text \<open>\<open>shutdown\<close>: stops every instance, then \<open>ngrok.disconnect()\<close> closes all tunnels.\<close>

definition shutdown :: "(pid \<Rightarrow> bool) \<Rightarrow> state \<Rightarrow> state" where
  "shutdown throws s =
     (stopAll throws (map fst (instances s)) s)\<lparr>tunnels := []\<rparr>"

section \<open>Workspace provisioning\<close>

text \<open>
  \<open>path.join\<close> of Node on POSIX paths: the segments of the relative path are appended,
  empty segments and \<open>.\<close> are dropped and \<open>..\<close> removes the segment before it (at the
  root it is dropped). \<open>segments\<close> splits a string at \<open>/\<close>; the first argument of
  \<open>normalize\<close> is the path so far, innermost segment first.
\<close>

fun segments :: "string \<Rightarrow> string \<Rightarrow> string list" where
  "segments acc [] = [rev acc]"
| "segments acc (c # cs) =
     (if c = CHR ''/'' then rev acc # segments [] cs else segments (c # acc) cs)"

fun normalize :: "path \<Rightarrow> string list \<Rightarrow> path" where
  "normalize st [] = rev st"
| "normalize st (x # xs) =
     (if x = [] \<or> x = ''.'' then normalize st xs
      else if x = ''..'' then normalize (tl st) xs
      else normalize (x # st) xs)"

definition path_join :: "path \<Rightarrow> string \<Rightarrow> path" where
  "path_join base rel = normalize (rev base) (segments [] rel)"

definition dirname :: "path \<Rightarrow> path" where
  "dirname p = butlast p"

text \<open>
  The file system operations the provisioner calls. An exception is a message
  (\<open>error.message\<close>). \<open>fs.rm\<close> with \<open>recursive, force\<close> removes the path and all
  below it; \<open>fs.mkdir\<close> with \<open>recursive\<close> creates the path and its missing
  ancestors and fails when a file is in the way; \<open>fs.writeFile\<close> replaces the
  contents of a file, fails on a directory, and fails with the message \<open>ioError\<close>
  gives for the path (disk full, permissions) when it gives one.
\<close>

definition rm_rf :: "path \<Rightarrow> (path \<rightharpoonup> node) \<Rightarrow> (path \<rightharpoonup> node)" where
  "rm_rf p f = (\<lambda>q. if prefix p q then None else f q)"

fun isFile :: "node option \<Rightarrow> bool" where
  "isFile (Some (File c)) = True"
| "isFile _ = False"

definition mkdir_p :: "path \<Rightarrow> (path \<rightharpoonup> node) \<Rightarrow> string + (path \<rightharpoonup> node)" where
  "mkdir_p p f =
     (if list_ex (\<lambda>q. isFile (f q)) (prefixes p) then Inl ''EEXIST: file already exists, mkdir''
      else Inr (\<lambda>q. if prefix q p then Some Dir else f q))"

definition writeFile ::
  "(path \<Rightarrow> string option) \<Rightarrow> path \<Rightarrow> string \<Rightarrow> (path \<rightharpoonup> node) \<Rightarrow> string + (path \<rightharpoonup> node)" where
  "writeFile ioErr p content f =
     (case ioErr p of
        Some msg \<Rightarrow> Inl msg
      | None \<Rightarrow>
          (if f p = Some Dir then Inl ''EISDIR: illegal operation on a directory, open''
           else if f (dirname p) \<noteq> Some Dir then Inl ''ENOENT: no such file or directory, open''
           else Inr (f(p \<mapsto> File content))))"

text \<open>
  What the outside world answers during one \<open>startMetro\<close> call: the three clock readings
  (\<open>new Date()\<close> at the reuse check and twice when the record is built), whether
  \<open>fs.rm\<close> throws, the write errors, the outcome of \<open>npm install\<close> and of \<open>spawn\<close>
  (\<open>Some\<close> is the message of the exception thrown), whether \<open>spawn\<close> reports a
  failure through the \<open>'error'\<close> event of the child instead (\<open>ENOENT\<close> and the like,
  emitted on the next tick), whether the child has exited by the time the probe and the
  tunnel are done, whether the n-th \<open>GET /status\<close> answers ok, what \<open>ngrok.connect\<close>
  returns (\<open>None\<close> when it throws) and whether \<open>kill\<close> throws.
\<close>

record StartEnv =
  clockAccess :: int
  clockStart :: int
  clockInsert :: int
  rmThrows :: bool
  ioError :: "path \<Rightarrow> string option"
  installError :: "string option"
  spawnError :: "string option"
  spawnErrorEvent :: "string option"
  childCrashed :: bool
  statusOk :: "nat \<Rightarrow> bool"
  ngrokConnect :: "string option"
  killThrows :: "pid \<Rightarrow> bool"

text \<open>\<open>path.join\<close> keeps a trailing separator, which the segment list does not show;
  \<open>fs.writeFile\<close> on such a path fails.\<close>

definition trailingSlash :: "string \<Rightarrow> bool" where
  "trailingSlash rel = (rel \<noteq> [] \<and> last rel = CHR ''/'')"

text \<open>The loop of \<open>createWorkspace\<close> over \<open>Object.entries(files)\<close>. The result is the
  exception thrown, if any, and the file system as the loop left it.\<close>

fun writeFiles ::
  "(path \<Rightarrow> string option) \<Rightarrow> path \<Rightarrow> (string \<times> string) list \<Rightarrow> (path \<rightharpoonup> node)
   \<Rightarrow> string option \<times> (path \<rightharpoonup> node)" where
  "writeFiles ioErr ws [] f = (None, f)"
| "writeFiles ioErr ws ((filePath, content) # rest) f =
     (case mkdir_p (dirname (path_join ws filePath)) f of
        Inl e \<Rightarrow> (Some e, f)
      | Inr f1 \<Rightarrow>
          (if trailingSlash filePath
           then (Some ''EISDIR: illegal operation on a directory, open'', f1)
           else
             (case writeFile ioErr (path_join ws filePath) content f1 of
                Inl e \<Rightarrow> (Some e, f1)
              | Inr f2 \<Rightarrow> writeFiles ioErr ws rest f2)))"

text \<open>\<open>createWorkspace\<close>: an exception of \<open>fs.rm\<close> is swallowed by the inner \<open>try\<close>
  (nothing is removed then); every other exception is rethrown.\<close>

definition createWorkspace ::
  "StartEnv \<Rightarrow> path \<Rightarrow> (string \<times> string) list \<Rightarrow> (path \<rightharpoonup> node)
   \<Rightarrow> string option \<times> (path \<rightharpoonup> node)" where
  "createWorkspace env ws files f =
     (let f0 = (if rmThrows env then f else rm_rf ws f)
      in case mkdir_p ws f0 of
           Inl e \<Rightarrow> (Some e, f0)
         | Inr f1 \<Rightarrow> writeFiles (ioError env) ws files f1)"

text \<open>
  For stating what provisioning leaves behind: \<open>targets\<close> pairs each entry of the
  mapping with the path \<open>path.join\<close> gives it, in the order of the loop (a later write
  to the same path wins, which is \<open>map_of\<close> of the reversed list), and \<open>fileAt\<close> is
  the content of the file at a path, if there is a file.
\<close>

definition targets :: "path \<Rightarrow> (string \<times> string) list \<Rightarrow> (path \<times> string) list" where
  "targets ws files = map (\<lambda>(filePath, content). (path_join ws filePath, content)) files"

definition fileAt :: "(path \<rightharpoonup> node) \<Rightarrow> path \<Rightarrow> string option" where
  "fileAt f q = (case f q of Some (File c) \<Rightarrow> Some c | _ \<Rightarrow> None)"

section \<open>Starting an instance\<close>

text \<open>The result object \<open>{success, tunnelUrl?, bundleUrl?, port?, error?}\<close>: either
  success with the two URLs and the port, or failure with the error message. \<open>Crashed\<close>
  is no result at all: the service died of an uncaught exception with that message.\<close>

datatype StartResult = Started string "string option" nat | Failed string | Crashed string

text \<open>\<open>waitForMetroReady\<close>: attempts \<open>1 .. maxAttempts\<close>, true at the first ok answer.\<close>

fun waitAttempts :: "(nat \<Rightarrow> bool) \<Rightarrow> nat \<Rightarrow> nat \<Rightarrow> bool" where
  "waitAttempts ok attempt 0 = False"
| "waitAttempts ok attempt (Suc k) =
     (if ok attempt then True else waitAttempts ok (Suc attempt) k)"

definition waitForMetroReady :: "(nat \<Rightarrow> bool) \<Rightarrow> nat \<Rightarrow> bool" where
  "waitForMetroReady ok maxAttempts = waitAttempts ok 1 maxAttempts"

text \<open>
  \<open>startMetroProcess\<close>: \<open>npm install\<close>, then \<open>spawn\<close>; \<open>Inl\<close> is the exception.
  \<open>spawn\<close> returns a handle also when it will report its failure through the
  \<open>'error'\<close> event: then no child is running behind the handle. The files
  \<open>npm install\<close> adds to the workspace are not modelled.
\<close>

definition startMetroProcess :: "StartEnv \<Rightarrow> path \<Rightarrow> nat \<Rightarrow> state \<Rightarrow> string + (pid \<times> state)" where
  "startMetroProcess env ws p s =
     (case installError env of
        Some msg \<Rightarrow> Inl msg
      | None \<Rightarrow>
          (case spawnError env of
             Some msg \<Rightarrow> Inl msg
           | None \<Rightarrow>
               Inr (nextPid s,
                    s\<lparr>procs := (procs s)(nextPid s \<mapsto>
                                  \<lparr>cwd = ws, portArg = p, signals = [], killed = False,
                                   exited = (spawnErrorEvent env \<noteq> None)\<rparr>),
                      nextPid := Suc (nextPid s)\<rparr>)))"

text \<open>\<open>createTunnel\<close>: the URL of \<open>ngrok.connect\<close>, or \<open>None\<close> (\<open>null\<close>) when it throws.\<close>

definition createTunnel :: "StartEnv \<Rightarrow> nat \<Rightarrow> state \<Rightarrow> string option \<times> state" where
  "createTunnel env p s =
     (case ngrokConnect env of
        None \<Rightarrow> (None, s)
      | Some u \<Rightarrow> (Some u, s\<lparr>tunnels := tunnels s @ [u]\<rparr>))"

definition bundleSuffix :: string where
  "bundleSuffix = ''/index.bundle?platform=ios&dev=true&minify=false''"

text \<open>
  \<open>startMetro\<close> suspends at its \<open>await\<close>s, and other requests are served in between.
  The model cuts it where the registry is read again after a suspension:

  \<^item> \<open>provisionAndLaunch\<close> is lines 110-138: port, workspace, process, and the record put
    into the map; \<open>Inl\<close> is a failure before the record is inserted (the \<open>catch\<close> turns
    the exception into the result).
  \<^item> \<open>launch\<close> is the call up to its suspension at line 141: the reuse check of lines
    95-108, then \<open>provisionAndLaunch\<close>. \<open>Inl\<close> is a call that is over (reused, failed,
    or the service crashed); \<open>Inr\<close> is a suspended call with its process handle and
    its port. When \<open>spawn\<close> reports its failure through the \<open>'error'\<close> event, that
    event fires on the next tick, after the record was inserted; the source has no
    listener for it, so the service dies.
  \<^item> \<open>probed\<close> is the resumption when \<open>waitForMetroReady\<close> returns (lines 141-145 and
    170-176), in whatever state the service is then: on failure \<open>stopMetro(appId)\<close>,
    which stops whatever record the appId has then, and the call is over with the
    result \<open>Some\<close>; on success the call goes on to \<open>createTunnel\<close> and suspends again
    (\<open>None\<close>).
  \<^item> \<open>connected\<close> is the resumption when \<open>createTunnel\<close> returns (lines 145-169), the
    tunnel being open by then if there is one: on success the fields of the instance
    object of this call are set, which shows in the registry only if that object is
    still the record of the appId (\<open>markReady\<close>; the object is known by the process it
    owns); on failure \<open>stopMetro(appId)\<close>, again on whatever record is there.

  The \<open>await\<close>s of lines 117 and 120 are not cut: between the allocation of the port and
  the insert the call reads neither the registry nor the cursor.

  \<open>awaitReady\<close> is \<open>probed\<close> followed at once by \<open>connected\<close>, and \<open>startMetro\<close>
  is a call during which no other request is served: \<open>launch\<close>, the exit of the child
  if it happens in the meantime, then \<open>awaitReady\<close>.
\<close>

definition provisionAndLaunch ::
  "StartEnv \<Rightarrow> string \<Rightarrow> string \<Rightarrow> (string \<times> string) list \<Rightarrow> state
   \<Rightarrow> (string \<times> state) + (MetroInstance \<times> state)" where
  "provisionAndLaunch env aid nm files s =
     (case getNextPort s of
        (None, s1) \<Rightarrow> Inl (''No available ports for Metro instance'', s1)
      | (Some p, s1) \<Rightarrow>
          (if p = 0 then Inl (''No available ports for Metro instance'', s1)
           else
             (case createWorkspace env (path_join WORKSPACE_BASE aid) files (fs s1) of
                (Some msg, f) \<Rightarrow> Inl (msg, s1\<lparr>fs := f\<rparr>)
              | (None, f) \<Rightarrow>
                  (case startMetroProcess env (path_join WORKSPACE_BASE aid) p (s1\<lparr>fs := f\<rparr>) of
                     Inl msg \<Rightarrow> Inl (msg, s1\<lparr>fs := f\<rparr>)
                   | Inr (pr, s2) \<Rightarrow>
                       (let inst = \<lparr>appId = aid, appName = nm, process = pr,
                                    workspaceDir = path_join WORKSPACE_BASE aid, port = p,
                                    tunnelUrl = None, bundleUrl = None,
                                    startTime = clockStart env, lastAccess = clockInsert env,
                                    isReady = False\<rparr>
                        in Inr (inst, s2\<lparr>instances := AList.update aid inst (instances s2)\<rparr>))))))"

definition launchFresh ::
  "StartEnv \<Rightarrow> string \<Rightarrow> string \<Rightarrow> (string \<times> string) list \<Rightarrow> state
   \<Rightarrow> (StartResult + (pid \<times> nat)) \<times> state" where
  "launchFresh env aid nm files s =
     (case provisionAndLaunch env aid nm files s of
        Inl (msg, s1) \<Rightarrow> (Inl (Failed msg), s1)
      | Inr (inst, s1) \<Rightarrow>
          (case spawnErrorEvent env of
             Some msg \<Rightarrow> (Inl (Crashed msg), s1\<lparr>crashed := True\<rparr>)
           | None \<Rightarrow> (Inr (process inst, port inst), s1)))"

definition markReady :: "string \<Rightarrow> pid \<Rightarrow> string \<Rightarrow> state \<Rightarrow> state" where
  "markReady aid pr u s =
     (case map_of (instances s) aid of
        None \<Rightarrow> s
      | Some cur \<Rightarrow>
          (if process cur = pr
           then s\<lparr>instances :=
                    AList.update aid
                      (cur\<lparr>tunnelUrl := Some u, bundleUrl := Some (u @ bundleSuffix),
                           isReady := True\<rparr>)
                      (instances s)\<rparr>
           else s))"

definition probed :: "StartEnv \<Rightarrow> string \<Rightarrow> state \<Rightarrow> StartResult option \<times> state" where
  "probed env aid s =
     (if waitForMetroReady (statusOk env) 30 then (None, s)
      else (Some (Failed ''Metro failed to start within timeout''),
            snd (stopMetro (killThrows env) aid s)))"

definition connected :: "StartEnv \<Rightarrow> string \<Rightarrow> pid \<Rightarrow> nat \<Rightarrow> state \<Rightarrow> StartResult \<times> state" where
  "connected env aid pr p s =
     (case createTunnel env p s of
        (turl, s1) \<Rightarrow>
          (if truthy turl then
             (Started (the turl) (Some (the turl @ bundleSuffix)) p, markReady aid pr (the turl) s1)
           else (Failed ''Failed to create ngrok tunnel'',
                 snd (stopMetro (killThrows env) aid s1))))"

definition awaitReady :: "StartEnv \<Rightarrow> string \<Rightarrow> pid \<Rightarrow> nat \<Rightarrow> state \<Rightarrow> StartResult \<times> state" where
  "awaitReady env aid pr p s =
     (case probed env aid s of
        (Some r, s1) \<Rightarrow> (r, s1)
      | (None, s1) \<Rightarrow> connected env aid pr p s1)"

definition startFresh ::
  "StartEnv \<Rightarrow> string \<Rightarrow> string \<Rightarrow> (string \<times> string) list \<Rightarrow> state \<Rightarrow> StartResult \<times> state" where
  "startFresh env aid nm files s =
     (case launchFresh env aid nm files s of
        (Inl r, s1) \<Rightarrow> (r, s1)
      | (Inr (pr, p), s1) \<Rightarrow>
          awaitReady env aid pr p (if childCrashed env then childExit pr s1 else s1))"

definition reusable :: "MetroInstance \<Rightarrow> bool" where
  "reusable ex = (isReady ex \<and> truthy (tunnelUrl ex))"

definition startMetro ::
  "StartEnv \<Rightarrow> string \<Rightarrow> string \<Rightarrow> (string \<times> string) list \<Rightarrow> state \<Rightarrow> StartResult \<times> state" where
  "startMetro env aid nm files s =
     (case map_of (instances s) aid of
        None \<Rightarrow> startFresh env aid nm files s
      | Some ex \<Rightarrow>
          (let s0 = s\<lparr>instances :=
                       AList.update aid (ex\<lparr>lastAccess := clockAccess env\<rparr>) (instances s)\<rparr>
           in if reusable ex
              then (Started (the (tunnelUrl ex)) (bundleUrl ex) (port ex), s0)
              else startFresh env aid nm files s0))"

definition launch ::
  "StartEnv \<Rightarrow> string \<Rightarrow> string \<Rightarrow> (string \<times> string) list \<Rightarrow> state
   \<Rightarrow> (StartResult + (pid \<times> nat)) \<times> state" where
  "launch env aid nm files s =
     (case map_of (instances s) aid of
        None \<Rightarrow> launchFresh env aid nm files s
      | Some ex \<Rightarrow>
          (let s0 = s\<lparr>instances :=
                       AList.update aid (ex\<lparr>lastAccess := clockAccess env\<rparr>) (instances s)\<rparr>
           in if reusable ex
              then (Inl (Started (the (tunnelUrl ex)) (bundleUrl ex) (port ex)), s0)
              else launchFresh env aid nm files s0))"

section \<open>Construction and runs of the service\<close>

text \<open>The constructor on a machine whose file system is \<open>f\<close>: the pool is filled and
  \<open>ensureWorkspaceDir\<close> creates the workspace root (a failure is logged only).\<close>

definition ensureWorkspaceDir :: "state \<Rightarrow> state" where
  "ensureWorkspaceDir s =
     (case mkdir_p WORKSPACE_BASE (fs s) of Inl e \<Rightarrow> s | Inr f \<Rightarrow> s\<lparr>fs := f\<rparr>)"

definition newMetroService :: "(path \<rightharpoonup> node) \<Rightarrow> state" where
  "newMetroService f =
     ensureWorkspaceDir (initializePortPool
       \<lparr>instances = [], portPool = [], currentPortIndex = 0, procs = Map.empty,
        nextPid = 0, killTimers = [], tunnels = [], fs = f, crashed = False\<rparr>)"

text \<open>
  What happens to the service, each event with what the outside world answers: a start
  during which nothing else is served (\<open>Start\<close>); a start in its three pieces, which
  other events may separate (\<open>Launch\<close>, then \<open>Probed\<close> with the appId of the suspended
  call, then \<open>Connected\<close> with its appId, process handle and port); stop, sweep and
  shutdown; and the exit of a child. A run is a list of events; a crashed service serves
  none.
\<close>

datatype request =
    Start StartEnv string string "(string \<times> string) list"
  | Launch StartEnv string string "(string \<times> string) list"
  | Probed StartEnv string
  | Connected StartEnv string pid nat
  | Stop "pid \<Rightarrow> bool" string
  | Sweep "pid \<Rightarrow> bool" int
  | Shutdown "pid \<Rightarrow> bool"
  | ChildExit pid

fun step :: "request \<Rightarrow> state \<Rightarrow> state" where
  "step (Start env aid nm files) s = snd (startMetro env aid nm files s)"
| "step (Launch env aid nm files) s = snd (launch env aid nm files s)"
| "step (Probed env aid) s = snd (probed env aid s)"
| "step (Connected env aid pr p) s = snd (connected env aid pr p s)"
| "step (Stop throws aid) s = snd (stopMetro throws aid s)"
| "step (Sweep throws now) s = cleanupInactiveInstances throws now s"
| "step (Shutdown throws) s = shutdown throws s"
| "step (ChildExit p) s = childExit p s"

definition exec :: "request \<Rightarrow> state \<Rightarrow> state" where
  "exec r s = (if crashed s then s else step r s)"

definition run :: "request list \<Rightarrow> state \<Rightarrow> state" where
  "run rs s = fold exec rs s"

text \<open>
  A start calls \<open>getNextPort\<close> unless it takes the reuse path;
  \<open>allocations rs s\<close> counts the calls of the allocator during the run of \<open>rs\<close> from
  \<open>s\<close>. \<open>nextPorts n s\<close> is what \<open>n\<close> successive calls of \<open>getNextPort\<close> return.
\<close>

fun allocates :: "request \<Rightarrow> state \<Rightarrow> bool" where
  "allocates (Start env aid nm files) s =
     (case map_of (instances s) aid of None \<Rightarrow> True | Some ex \<Rightarrow> \<not> reusable ex)"
| "allocates (Launch env aid nm files) s =
     (case map_of (instances s) aid of None \<Rightarrow> True | Some ex \<Rightarrow> \<not> reusable ex)"
| "allocates r s = False"

fun allocations :: "request list \<Rightarrow> state \<Rightarrow> nat" where
  "allocations [] s = 0"
| "allocations (r # rs) s =
     (if allocates r s \<and> \<not> crashed s then 1 else 0) + allocations rs (exec r s)"

fun nextPorts :: "nat \<Rightarrow> state \<Rightarrow> nat option list" where
  "nextPorts 0 s = []"
| "nextPorts (Suc n) s = fst (getNextPort s) # nextPorts n (snd (getNextPort s))"

text \<open>
  The pool the constructor builds, and the invariant of the first hundred calls of the
  allocator: after \<open>k\<close> calls the cursor is \<open>k mod 100\<close>, the keys of the registry are
  distinct, every record holds one of the first \<open>k\<close> ports, and no two records share one.
\<close>

definition initialPool :: "nat list" where
  "initialPool = [PORT_RANGE_START ..< Suc PORT_RANGE_END]"

definition allocInv :: "nat \<Rightarrow> state \<Rightarrow> bool" where
  "allocInv k s =
     (portPool s = initialPool \<and> currentPortIndex s = k mod 100 \<and>
      distinct (map fst (instances s)) \<and>
      (\<forall>a i. map_of (instances s) a = Some i \<longrightarrow> (\<exists>n<k. port i = 8081 + n)) \<and>
      (\<forall>a b i j. map_of (instances s) a = Some i \<longrightarrow> map_of (instances s) b = Some j \<longrightarrow>
          a \<noteq> b \<longrightarrow> port i \<noteq> port j))"

text \<open>Any two records of the registry under different keys have different ports.\<close>

definition portsUnique :: "state \<Rightarrow> bool" where
  "portsUnique s =
     list_all (\<lambda>(a, i). list_all (\<lambda>(b, j). a \<noteq> b \<longrightarrow> port i \<noteq> port j) (instances s))
       (instances s)"

text \<open>
  The port the allocator hands out next; whether a record of another appId holds a port;
  and a start that puts a new record at a port in the registry and leaves it there.
  \<open>clashes r s\<close> says that the request \<open>r\<close>, served in state \<open>s\<close>, is a start that
  calls the allocator, gets a port that a record of another appId holds, and leaves its
  record in the registry (it does not fail). \<open>clashFree rs s\<close> says that this happens
  nowhere in the run of \<open>rs\<close> from \<open>s\<close>.
\<close>

definition nextPort :: "state \<Rightarrow> nat" where
  "nextPort s = portPool s ! (currentPortIndex s mod length (portPool s))"

definition heldByOther :: "string \<Rightarrow> nat \<Rightarrow> state \<Rightarrow> bool" where
  "heldByOther aid p s = list_ex (\<lambda>(b, j). b \<noteq> aid \<and> port j = p) (instances s)"

fun isFailed :: "StartResult \<Rightarrow> bool" where
  "isFailed (Failed msg) = True"
| "isFailed r = False"

fun starts :: "request \<Rightarrow> string option" where
  "starts (Start env aid nm files) = Some aid"
| "starts (Launch env aid nm files) = Some aid"
| "starts r = None"

fun fails :: "request \<Rightarrow> state \<Rightarrow> bool" where
  "fails (Start env aid nm files) s = isFailed (fst (startMetro env aid nm files s))"
| "fails (Launch env aid nm files) s =
     (case fst (launch env aid nm files s) of Inl r \<Rightarrow> isFailed r | Inr h \<Rightarrow> False)"
| "fails r s = False"

definition clashes :: "request \<Rightarrow> state \<Rightarrow> bool" where
  "clashes r s =
     (case starts r of
        None \<Rightarrow> False
      | Some aid \<Rightarrow>
          \<not> crashed s \<and> allocates r s \<and> \<not> fails r s \<and> heldByOther aid (nextPort s) s)"

fun clashFree :: "request list \<Rightarrow> state \<Rightarrow> bool" where
  "clashFree [] s = True"
| "clashFree (r # rs) s = (\<not> clashes r s \<and> clashFree rs (exec r s))"

text \<open>
  Whether \<open>kill('SIGTERM')\<close> on a process returns (it does not throw), the function
  \<open>throws\<close> a request comes with, and the records a sweep at time \<open>now\<close> finds idle.
\<close>

definition killReturns :: "(pid \<Rightarrow> bool) \<Rightarrow> state \<Rightarrow> pid \<Rightarrow> bool" where
  "killReturns throws s p = (case kill throws p SIGTERM s of None \<Rightarrow> False | Some s' \<Rightarrow> True)"




section \<open>A concrete service\<close>

text \<open>
  The scenario of the specification: a stub server that answers at once and a stub tunnel
  provider. \<open>demoState\<close> is the service after \<open>start("app-1", "Demo", ...)\<close> on an empty
  machine; \<open>failingInstall\<close> is a world in which \<open>npm install\<close> fails.
\<close>

definition demoEnv :: StartEnv where
  "demoEnv =
     \<lparr>clockAccess = 1000, clockStart = 1000, clockInsert = 1000, rmThrows = False,
      ioError = (\<lambda>p. None), installError = None, spawnError = None,
      spawnErrorEvent = None, childCrashed = False,
      statusOk = (\<lambda>n. True), ngrokConnect = Some ''https://stub.example'',
      killThrows = (\<lambda>p. False)\<rparr>"

definition demoFiles :: "(string \<times> string) list" where
  "demoFiles = [(''index.js'', ''console.log(1)'')]"

definition demoState :: state where
  "demoState = snd (startMetro demoEnv ''app-1'' ''Demo'' demoFiles (newMetroService Map.empty))"

definition demoInstance :: MetroInstance where
  "demoInstance =
     \<lparr>appId = ''app-1'', appName = ''Demo'', process = 0,
      workspaceDir = [''tmp'', ''metro-apps'', ''app-1''], port = 8081,
      tunnelUrl = Some ''https://stub.example'',
      bundleUrl = Some ''https://stub.example/index.bundle?platform=ios&dev=true&minify=false'',
      startTime = 1000, lastAccess = 1000, isReady = True\<rparr>"

definition failingInstall :: StartEnv where
  "failingInstall = demoEnv\<lparr>installError := Some ''Command failed: npm install --legacy-peer-deps''\<rparr>"

text \<open>
  A registry with three records at time 901000 (milliseconds): \<open>app-1\<close> accessed exactly
  15 minutes ago, \<open>app-2\<close> idle for longer, and \<open>app-3\<close> the record of a start that is
  still in flight (its tunnel has not opened). \<open>slowEnv\<close> is a world whose server never
  answers the readiness probe; \<open>secondEnv\<close> is the world of a later request.
\<close>

definition idleInstance :: MetroInstance where
  "idleInstance =
     \<lparr>appId = ''app-2'', appName = ''Old'', process = 1,
      workspaceDir = [''tmp'', ''metro-apps'', ''app-2''], port = 8082,
      tunnelUrl = Some ''https://old.example'',
      bundleUrl = Some ''https://old.example/index.bundle?platform=ios&dev=true&minify=false'',
      startTime = 0, lastAccess = 0, isReady = True\<rparr>"

definition pendingInstance :: MetroInstance where
  "pendingInstance =
     \<lparr>appId = ''app-3'', appName = ''Pending'', process = 2,
      workspaceDir = [''tmp'', ''metro-apps'', ''app-3''], port = 8083,
      tunnelUrl = None, bundleUrl = None, startTime = 0, lastAccess = 0, isReady = False\<rparr>"

definition newProcess :: "path \<Rightarrow> nat \<Rightarrow> ChildProcess" where
  "newProcess ws p = \<lparr>cwd = ws, portArg = p, signals = [], killed = False, exited = False\<rparr>"

definition sweepState :: state where
  "sweepState =
     \<lparr>instances = [(''app-1'', demoInstance), (''app-2'', idleInstance), (''app-3'', pendingInstance)],
      portPool = [8081..<8181], currentPortIndex = 3,
      procs = [0 \<mapsto> newProcess [''tmp'', ''metro-apps'', ''app-1''] 8081,
               1 \<mapsto> newProcess [''tmp'', ''metro-apps'', ''app-2''] 8082,
               2 \<mapsto> newProcess [''tmp'', ''metro-apps'', ''app-3''] 8083],
      nextPid = 3, killTimers = [],
      tunnels = [''https://stub.example'', ''https://old.example''], fs = Map.empty,
      crashed = False\<rparr>"


definition secondEnv :: StartEnv where
  "secondEnv = failingInstall\<lparr>clockAccess := 2000\<rparr>"

text \<open>
  A run that wraps the allocator: \<open>app-1\<close> starts and stays live, 99 starts of
  \<open>app-2\<close> fail at \<open>npm install\<close>, then \<open>app-3\<close> starts. \<open>basesOk\<close> says that
  the workspace root and its ancestors are directories.
\<close>

definition wrapRun :: "request list" where
  "wrapRun =
     Start demoEnv ''app-1'' ''Demo'' demoFiles
     # replicate 99 (Start failingInstall ''app-2'' ''Other'' [])
     @ [Start demoEnv ''app-3'' ''Third'' demoFiles]"

definition basesOk :: "(path \<rightharpoonup> node) \<Rightarrow> bool" where
  "basesOk f = (f [] = Some Dir \<and> f [''tmp''] = Some Dir \<and> f [''tmp'', ''metro-apps''] = Some Dir)"

text \<open>
  A machine on which the workspace of \<open>app-1\<close> already holds a file, a world in which
  every write fails, and one in which \<open>fs.rm\<close> throws.
\<close>

definition staleFs :: "path \<rightharpoonup> node" where
  "staleFs =
     [[] \<mapsto> Dir, [''tmp''] \<mapsto> Dir, [''tmp'', ''metro-apps''] \<mapsto> Dir,
      [''tmp'', ''metro-apps'', ''app-1''] \<mapsto> Dir,
      [''tmp'', ''metro-apps'', ''app-1'', ''old.js''] \<mapsto> File ''stale'']"

definition diskFull :: StartEnv where
  "diskFull = demoEnv\<lparr>ioError := (\<lambda>p. Some ''ENOSPC: no space left on device, write'')\<rparr>"

definition rmRefused :: StartEnv where
  "rmRefused = demoEnv\<lparr>rmThrows := True\<rparr>"

text \<open>
  An empty machine; a world in which every \<open>kill\<close> throws and one in which none does;
  a world in which \<open>npx\<close> is not installed, so that \<open>spawn\<close> emits \<open>'error'\<close>; a world
  whose Metro crashes right after the launch and never answers the probe; and a world
  whose server never answers and whose \<open>kill\<close> throws.
\<close>

definition emptyFs :: "path \<rightharpoonup> node" where
  "emptyFs = Map.empty"






text \<open>
  A run past the size of the pool without a clash: \<open>app-1\<close> starts and stays live, 100
  starts of \<open>app-2\<close> fail at \<open>npm install\<close> (the last of them is given the port of
  \<open>app-1\<close>), then \<open>app-3\<close> starts.
\<close>

definition longRun :: "request list" where
  "longRun =
     Start demoEnv ''app-1'' ''Demo'' demoFiles
     # replicate 100 (Start failingInstall ''app-2'' ''Other'' [])
     @ [Start demoEnv ''app-3'' ''Third'' demoFiles]"

section \<open>Facts about the concrete service\<close>

lemma waitAttempts_iff: "waitAttempts ok a k \<longleftrightarrow> (\<exists>i<k. ok (a + i))"
proof (induction k arbitrary: a)
  case 0
  show ?case by simp
next
  case (Suc k)
  show ?case
  proof (cases "ok a")
    case True
    then show ?thesis by auto
  next
    case False
    have "(\<exists>i<Suc k. ok (a + i)) \<longleftrightarrow> (\<exists>i<k. ok (Suc a + i))"
    proof
      assume "\<exists>i<Suc k. ok (a + i)"
      then obtain i where i: "i < Suc k" "ok (a + i)" by blast
      with False have "i \<noteq> 0" by (cases i) auto
      then obtain j where "i = Suc j" by (cases i) auto
      with i show "\<exists>i<k. ok (Suc a + i)" by auto
    next
      assume "\<exists>i<k. ok (Suc a + i)"
      then obtain i where "i < k" "ok (Suc a + i)" by blast
      then have "Suc i < Suc k \<and> ok (a + Suc i)" by simp
      then show "\<exists>i<Suc k. ok (a + i)" by blast
    qed
    with False Suc show ?thesis by simp
  qed
qed

lemma demo_ready: "waitForMetroReady (\<lambda>n. True) 30"
  unfolding waitForMetroReady_def waitAttempts_iff by (rule exI[of _ 0], simp)

lemmas demo_defs = demoState_def demoInstance_def startMetro_def startFresh_def launchFresh_def
    provisionAndLaunch_def awaitReady_def probed_def connected_def markReady_def newMetroService_def ensureWorkspaceDir_def initializePortPool_def getNextPort_def
    PORT_RANGE_START_def PORT_RANGE_END_def demoFiles_def createWorkspace_def
    mkdir_p_def WORKSPACE_BASE_def path_join_def rm_rf_def writeFile_def dirname_def trailingSlash_def
    startMetroProcess_def createTunnel_def bundleSuffix_def Let_def

lemma demo_instances: "instances demoState = [(''app-1'', demoInstance)]"
  by (simp add: demo_defs demoEnv_def demo_ready)

lemma demo_cursor: "currentPortIndex demoState = 1"
  by (simp add: demo_defs demoEnv_def demo_ready)


lemma demo_file: "fs demoState [''tmp'', ''metro-apps'', ''app-1'', ''index.js''] = Some (File ''console.log(1)'')"
  by (simp add: demo_defs demoEnv_def demo_ready)



lemma demo_start:
  "startMetro demoEnv ''app-1'' ''Demo'' demoFiles (newMetroService Map.empty) =
     (Started ''https://stub.example''
        (Some ''https://stub.example/index.bundle?platform=ios&dev=true&minify=false'') 8081,
      demoState)"
proof -
  have "fst (startMetro demoEnv ''app-1'' ''Demo'' demoFiles (newMetroService Map.empty)) =
     Started ''https://stub.example''
        (Some ''https://stub.example/index.bundle?platform=ios&dev=true&minify=false'') 8081"
    by (simp add: demo_defs demoEnv_def demo_ready)
  then show ?thesis
    by (simp add: demoState_def prod_eq_iff)
qed

lemma nextPid_fresh: "nextPid (newMetroService f) = 0"
  by (simp add: newMetroService_def ensureWorkspaceDir_def initializePortPool_def split: sum.splits)


lemma demo_bases: "basesOk (fs demoState)"
  by (simp add: basesOk_def demo_defs demoEnv_def demo_ready)

section \<open>The port allocator is a round robin\<close>

lemma pool_fresh: "portPool (newMetroService f) = [8081..<8181]"
  by (simp add: newMetroService_def ensureWorkspaceDir_def initializePortPool_def
      PORT_RANGE_START_def PORT_RANGE_END_def split: sum.splits)

lemma cursor_fresh: "currentPortIndex (newMetroService f) = 0"
  by (simp add: newMetroService_def ensureWorkspaceDir_def initializePortPool_def split: sum.splits)

lemma instances_fresh: "instances (newMetroService f) = []"
  by (simp add: newMetroService_def ensureWorkspaceDir_def initializePortPool_def split: sum.splits)

subsection \<open>The allocator only reads and writes the pool and the cursor\<close>

lemma getNextPort_pool: "portPool (snd (getNextPort s)) = portPool s"
  by (simp add: getNextPort_def)

lemma getNextPort_cursor:
  "currentPortIndex (snd (getNextPort s)) =
     (if portPool s = [] then currentPortIndex s
      else (currentPortIndex s + 1) mod length (portPool s))"
  by (simp add: getNextPort_def)

lemma getNextPort_value:
  "fst (getNextPort s) =
     (if portPool s = [] then None
      else Some (portPool s ! (currentPortIndex s mod length (portPool s))))"
  by (simp add: getNextPort_def)

lemma kill_frame:
  assumes "kill t p sg s = Some s'"
  shows "portPool s' = portPool s" "currentPortIndex s' = currentPortIndex s"
    "instances s' = instances s" "tunnels s' = tunnels s" "killTimers s' = killTimers s"
    "nextPid s' = nextPid s" "fs s' = fs s" "crashed s' = crashed s"
  using assms by (auto simp: kill_def split: option.splits if_splits)

lemma childExit_frame:
  "portPool (childExit p s) = portPool s"
  "currentPortIndex (childExit p s) = currentPortIndex s"
  "instances (childExit p s) = instances s"
  "tunnels (childExit p s) = tunnels s"
  "killTimers (childExit p s) = killTimers s"
  "nextPid (childExit p s) = nextPid s"
  "fs (childExit p s) = fs s"
  "crashed (childExit p s) = crashed s"
  by (simp_all add: childExit_def split: option.splits)

lemma stopMetro_frame:
  "portPool (snd (stopMetro t a s)) = portPool s"
  "currentPortIndex (snd (stopMetro t a s)) = currentPortIndex s"
  "nextPid (snd (stopMetro t a s)) = nextPid s"
  "fs (snd (stopMetro t a s)) = fs s"
  "crashed (snd (stopMetro t a s)) = crashed s"
  by (auto simp: stopMetro_def Let_def kill_frame split: option.splits)

lemma stopAll_frame:
  "portPool (stopAll t as s) = portPool s"
  "currentPortIndex (stopAll t as s) = currentPortIndex s"
  "nextPid (stopAll t as s) = nextPid s"
  "fs (stopAll t as s) = fs s"
  "crashed (stopAll t as s) = crashed s"
  unfolding stopAll_def by (induction as arbitrary: s; simp add: stopMetro_frame)+

lemma markReady_frame:
  "portPool (markReady a pr u s) = portPool s"
  "currentPortIndex (markReady a pr u s) = currentPortIndex s"
  "procs (markReady a pr u s) = procs s"
  "nextPid (markReady a pr u s) = nextPid s"
  "killTimers (markReady a pr u s) = killTimers s"
  "tunnels (markReady a pr u s) = tunnels s"
  "fs (markReady a pr u s) = fs s"
  "crashed (markReady a pr u s) = crashed s"
  by (simp_all add: markReady_def split: option.splits)

lemma createTunnel_frame:
  "portPool (snd (createTunnel env p s)) = portPool s"
  "currentPortIndex (snd (createTunnel env p s)) = currentPortIndex s"
  "instances (snd (createTunnel env p s)) = instances s"
  "procs (snd (createTunnel env p s)) = procs s"
  "nextPid (snd (createTunnel env p s)) = nextPid s"
  "killTimers (snd (createTunnel env p s)) = killTimers s"
  "fs (snd (createTunnel env p s)) = fs s"
  "crashed (snd (createTunnel env p s)) = crashed s"
  "tunnels (snd (createTunnel env p s)) =
     (case ngrokConnect env of None \<Rightarrow> tunnels s | Some u \<Rightarrow> tunnels s @ [u])"
  "fst (createTunnel env p s) = ngrokConnect env"
  by (simp_all add: createTunnel_def split: option.splits)

lemma probed_alloc:
  "portPool (snd (probed env aid s)) = portPool s"
  "currentPortIndex (snd (probed env aid s)) = currentPortIndex s"
  "crashed (snd (probed env aid s)) = crashed s"
  by (simp_all add: probed_def stopMetro_frame)

lemma connected_alloc:
  "portPool (snd (connected env aid pr p s)) = portPool s"
  "currentPortIndex (snd (connected env aid pr p s)) = currentPortIndex s"
  "crashed (snd (connected env aid pr p s)) = crashed s"
  by (simp_all add: connected_def stopMetro_frame markReady_frame createTunnel_frame
      split: prod.splits)
     (metis createTunnel_frame(1,2,8) snd_conv)+

lemma awaitReady_alloc:
  "portPool (snd (awaitReady env aid pr p s)) = portPool s"
  "currentPortIndex (snd (awaitReady env aid pr p s)) = currentPortIndex s"
  "crashed (snd (awaitReady env aid pr p s)) = crashed s"
  by (simp_all add: awaitReady_def probed_def connected_alloc stopMetro_frame)

lemma provisionAndLaunch_alloc:
  "provisionAndLaunch env aid nm files s = Inl (msg, s1) \<Longrightarrow>
     portPool s1 = portPool s \<and> currentPortIndex s1 = currentPortIndex (snd (getNextPort s)) \<and>
     crashed s1 = crashed s"
  "provisionAndLaunch env aid nm files s = Inr (inst, s2) \<Longrightarrow>
     portPool s2 = portPool s \<and> currentPortIndex s2 = currentPortIndex (snd (getNextPort s)) \<and>
     crashed s2 = crashed s"
  by (auto simp: provisionAndLaunch_def getNextPort_def startMetroProcess_def Let_def
      split: prod.splits option.splits if_splits sum.splits)

lemma launchFresh_alloc:
  "portPool (snd (launchFresh env aid nm files s)) = portPool s \<and>
   currentPortIndex (snd (launchFresh env aid nm files s)) = currentPortIndex (snd (getNextPort s))"
  by (auto simp: launchFresh_def dest: provisionAndLaunch_alloc split: sum.splits option.splits)

lemma startFresh_alloc:
  "portPool (snd (startFresh env aid nm files s)) = portPool s \<and>
   currentPortIndex (snd (startFresh env aid nm files s)) = currentPortIndex (snd (getNextPort s))"
proof (cases "launchFresh env aid nm files s")
  case (Pair res s1)
  with launchFresh_alloc [of env aid nm files s] show ?thesis
    by (cases res) (auto simp: startFresh_def awaitReady_alloc childExit_frame)
qed

lemma startMetro_alloc:
  "portPool (snd (startMetro env aid nm files s)) = portPool s \<and>
   currentPortIndex (snd (startMetro env aid nm files s)) =
     (if allocates (Start env aid nm files) s then currentPortIndex (snd (getNextPort s))
      else currentPortIndex s)"
  by (auto simp: startMetro_def startFresh_alloc Let_def getNextPort_cursor split: option.splits)

lemma launch_alloc:
  "portPool (snd (launch env aid nm files s)) = portPool s \<and>
   currentPortIndex (snd (launch env aid nm files s)) =
     (if allocates (Launch env aid nm files) s then currentPortIndex (snd (getNextPort s))
      else currentPortIndex s)"
  by (auto simp: launch_def launchFresh_alloc Let_def getNextPort_cursor split: option.splits)

lemma step_alloc:
  "portPool (step r s) = portPool s \<and>
   currentPortIndex (step r s) =
     (if allocates r s then currentPortIndex (snd (getNextPort s)) else currentPortIndex s)"
  by (cases r) (simp_all add: startMetro_alloc launch_alloc probed_alloc connected_alloc
      stopMetro_frame cleanupInactiveInstances_def shutdown_def stopAll_frame childExit_frame)

lemma exec_alloc:
  "portPool (exec r s) = portPool s \<and>
   currentPortIndex (exec r s) =
     (if allocates r s \<and> \<not> crashed s then currentPortIndex (snd (getNextPort s))
      else currentPortIndex s)"
  by (simp add: exec_def step_alloc)

lemma run_Nil: "run [] s = s"
  by (simp add: run_def)

lemma run_Cons: "run (r # rs) s = run rs (exec r s)"
  by (simp add: run_def)

lemma run_append: "run (xs @ ys) s = run ys (run xs s)"
  by (simp add: run_def)

lemma run_pool: "portPool (run rs s) = portPool s"
  unfolding run_def by (induction rs arbitrary: s) (simp_all add: exec_alloc)

lemma run_cursor:
  "portPool s \<noteq> [] \<Longrightarrow>
   currentPortIndex (run rs s) mod length (portPool s) =
     (currentPortIndex s + allocations rs s) mod length (portPool s)"
proof (induction rs arbitrary: s)
  case Nil
  show ?case by (simp add: run_def)
next
  case (Cons r rs)
  have pool: "portPool (exec r s) = portPool s" by (simp add: exec_alloc)
  with Cons.prems have ne: "portPool (exec r s) \<noteq> []" by simp
  have "currentPortIndex (run (r # rs) s) mod length (portPool s) =
        (currentPortIndex (exec r s) + allocations rs (exec r s)) mod length (portPool s)"
    using Cons.IH [OF ne] by (simp add: run_def pool)
  also have "\<dots> = (currentPortIndex s + allocations (r # rs) s) mod length (portPool s)"
  proof (cases "allocates r s \<and> \<not> crashed s")
    case True
    with Cons.prems have "currentPortIndex (exec r s) = (currentPortIndex s + 1) mod length (portPool s)"
      by (simp add: exec_alloc getNextPort_cursor)
    with True show ?thesis by (simp add: mod_add_left_eq add.assoc)
  next
    case False
    then show ?thesis by (auto simp: exec_alloc)
  qed
  finally show ?case .
qed

lemma nextPorts_nth:
  "n < k \<Longrightarrow> portPool s \<noteq> [] \<Longrightarrow>
   nextPorts k s ! n = Some (portPool s ! ((currentPortIndex s + n) mod length (portPool s)))"
proof (induction k arbitrary: s n)
  case 0
  then show ?case by simp
next
  case (Suc k)
  show ?case
  proof (cases n)
    case 0
    with Suc.prems show ?thesis by (simp add: getNextPort_value)
  next
    case (Suc m)
    with Suc.prems have m: "m < k" by simp
    have ne: "portPool (snd (getNextPort s)) \<noteq> []" using Suc.prems by (simp add: getNextPort_pool)
    have "nextPorts (Suc k) s ! n = nextPorts k (snd (getNextPort s)) ! m"
      using Suc by simp
    also have "\<dots> = Some (portPool s ! (((currentPortIndex s + 1) mod length (portPool s) + m) mod length (portPool s)))"
      using Suc.IH [OF m ne] Suc.prems by (simp add: getNextPort_pool getNextPort_cursor)
    also have "((currentPortIndex s + 1) mod length (portPool s) + m) mod length (portPool s)
        = (currentPortIndex s + n) mod length (portPool s)"
      using Suc by (simp add: mod_add_left_eq)
    finally show ?thesis .
  qed
qed



lemma pool_length: "length initialPool = 100"
  by (simp add: initialPool_def PORT_RANGE_START_def PORT_RANGE_END_def)

lemma pool_nth: "n < 100 \<Longrightarrow> initialPool ! n = 8081 + n"
  using nth_upt [of 8081 n "Suc 8180"]
  by (simp add: initialPool_def PORT_RANGE_START_def PORT_RANGE_END_def)

lemma pool_fresh': "portPool (newMetroService f) = initialPool"
  by (simp add: newMetroService_def ensureWorkspaceDir_def initializePortPool_def initialPool_def
      split: sum.splits)

lemma crashed_fresh: "\<not> crashed (newMetroService f)"
  by (simp add: newMetroService_def ensureWorkspaceDir_def initializePortPool_def split: sum.splits)


lemma tunnels_fresh: "tunnels (newMetroService f) = []"
  by (simp add: newMetroService_def ensureWorkspaceDir_def initializePortPool_def split: sum.splits)


section \<open>Stopping an instance\<close>

subsection \<open>The three outcomes of \<open>kill\<close>\<close>

lemma kill_absent: "procs s p = None \<Longrightarrow> kill t p sg s = Some s"
  by (simp add: kill_def)

lemma kill_exited: "procs s p = Some cp \<Longrightarrow> exited cp \<Longrightarrow> kill t p sg s = Some s"
  by (simp add: kill_def)

lemma kill_throws: "procs s p = Some cp \<Longrightarrow> \<not> exited cp \<Longrightarrow> t p \<Longrightarrow> kill t p sg s = None"
  by (simp add: kill_def)

lemma kill_delivers:
  "procs s p = Some cp \<Longrightarrow> \<not> exited cp \<Longrightarrow> \<not> t p \<Longrightarrow>
   kill t p sg s = Some (s\<lparr>procs := (procs s)(p \<mapsto> cp\<lparr>signals := signals cp @ [sg], killed := True\<rparr>)\<rparr>)"
  by (simp add: kill_def)

lemma killReturns_iff:
  "killReturns t s p \<longleftrightarrow> (\<forall>cp. procs s p = Some cp \<longrightarrow> exited cp \<or> \<not> t p)"
  by (auto simp: killReturns_def kill_def split: option.splits)

lemma kill_procs:
  "kill t p sg s = Some s' \<Longrightarrow>
   procs s' q =
     (case procs s q of
        None \<Rightarrow> None
      | Some cp \<Rightarrow>
          Some (if q = p \<and> \<not> exited cp
                then cp\<lparr>signals := signals cp @ [sg], killed := True\<rparr> else cp))"
  by (auto simp: kill_def split: option.splits if_splits)

subsection \<open>What \<open>stopMetro\<close> does, field by field\<close>

lemma stopMetro_absent: "map_of (instances s) a = None \<Longrightarrow> stopMetro t a s = (False, s)"
  by (simp add: stopMetro_def)

lemma stopMetro_fst: "fst (stopMetro t a s) \<longleftrightarrow> map_of (instances s) a \<noteq> None"
  by (simp add: stopMetro_def Let_def split: option.splits)

lemma stopMetro_instances:
  "instances (snd (stopMetro t a s)) = AList.delete a (instances s)"
proof (cases "map_of (instances s) a")
  case None
  then have "a \<notin> fst ` set (instances s)" by (simp add: map_of_eq_None_iff)
  then have "AList.delete a (instances s) = instances s" by (simp add: delete_id)
  with None show ?thesis by (simp add: stopMetro_def)
next
  case (Some inst)
  then show ?thesis
    by (auto simp: stopMetro_def Let_def kill_frame split: option.splits)
qed

lemma stopMetro_lookup:
  "map_of (instances (snd (stopMetro t a s))) b = (if b = a then None else map_of (instances s) b)"
  by (simp add: stopMetro_instances delete_conv')

lemma stopMetro_keys:
  "distinct (map fst (instances s)) \<Longrightarrow> distinct (map fst (instances (snd (stopMetro t a s))))"
  by (simp add: stopMetro_instances distinct_delete)

lemma stopMetro_procs:
  "procs (snd (stopMetro t a s)) q =
     (case map_of (instances s) a of
        None \<Rightarrow> procs s q
      | Some inst \<Rightarrow>
          (case procs s q of
             None \<Rightarrow> None
           | Some cp \<Rightarrow>
               Some (if q = process inst \<and> \<not> exited cp \<and> \<not> t q
                     then cp\<lparr>signals := signals cp @ [SIGTERM], killed := True\<rparr> else cp)))"
  by (auto simp: stopMetro_def Let_def kill_def split: option.splits)



lemma stopMetro_exited:
  "map_option exited (procs (snd (stopMetro t a s)) q) = map_option exited (procs s q)"
  by (simp add: stopMetro_procs split: option.splits)

lemma stopMetro_killReturns:
  "killReturns t' (snd (stopMetro t a s)) q = killReturns t' s q"
  by (auto simp: killReturns_iff stopMetro_procs split: option.splits if_splits)

text \<open>
  C6. \<open>stopMetro\<close> on an appId without a record returns false and leaves the whole state
  as it was; on an appId with a record it returns true, and \<open>getStatus\<close> on the state
  it leaves reports the instance absent.
\<close>

theorem stopMetro_absent_or_live:
  "(map_of (instances s) aid = None \<longrightarrow> stopMetro throws aid s = (False, s)) \<and>
   (map_of (instances s) aid \<noteq> None \<longrightarrow>
      fst (stopMetro throws aid s) \<and> getStatus now aid (snd (stopMetro throws aid s)) = None)"
  by (simp add: stopMetro_absent stopMetro_fst getStatus_def stopMetro_lookup)

theorem stopMetro_absent_or_live_witness:
  "map_of (instances demoState) ''app-2'' = None \<and>
   stopMetro (\<lambda>p. False) ''app-2'' demoState = (False, demoState) \<and>
   map_of (instances demoState) ''app-1'' \<noteq> None \<and>
   fst (stopMetro (\<lambda>p. False) ''app-1'' demoState) \<and>
   getStatus 2000 ''app-1'' (snd (stopMetro (\<lambda>p. False) ''app-1'' demoState)) = None"
  using stopMetro_absent_or_live [of demoState "''app-2''" "\<lambda>p. False" 2000]
        stopMetro_absent_or_live [of demoState "''app-1''" "\<lambda>p. False" 2000]
  by (simp add: demo_instances)

section \<open>The registry under stop and sweep\<close>

lemma stopAll_Nil: "stopAll t [] s = s"
  by (simp add: stopAll_def)

lemma stopAll_Cons: "stopAll t (a # as) s = stopAll t as (snd (stopMetro t a s))"
  by (simp add: stopAll_def)

lemma stopAll_instances:
  "instances (stopAll t as s) = filter (\<lambda>e. fst e \<notin> set as) (instances s)"
proof (induction as arbitrary: s)
  case Nil
  show ?case by (simp add: stopAll_Nil)
next
  case (Cons a as)
  have "instances (stopAll t (a # as) s) =
        filter (\<lambda>e. fst e \<notin> set as) (AList.delete a (instances s))"
    by (simp add: stopAll_Cons Cons.IH stopMetro_instances)
  also have "\<dots> = filter (\<lambda>e. fst e \<notin> set (a # as)) (instances s)"
    by (auto simp: AList.delete_eq intro: filter_cong)
  finally show ?case .
qed

lemma stopAll_lookup:
  "map_of (instances (stopAll t as s)) b = (if b \<in> set as then None else map_of (instances s) b)"
proof (induction as arbitrary: s)
  case Nil
  show ?case by (simp add: stopAll_Nil)
next
  case (Cons a as)
  show ?case by (simp add: stopAll_Cons Cons.IH stopMetro_lookup)
qed

lemma stopAll_keys:
  "distinct (map fst (instances s)) \<Longrightarrow> distinct (map fst (instances (stopAll t as s)))"
  by (simp add: stopAll_instances distinct_map_filter)

lemma stopAll_killReturns: "killReturns t' (stopAll t as s) q = killReturns t' s q"
  by (induction as arbitrary: s) (simp_all add: stopAll_Nil stopAll_Cons stopMetro_killReturns)





subsection \<open>The sweep\<close>





lemma inactive_iff:
  assumes "distinct (map fst (instances s))"
  shows "a \<in> set (inactiveInstances now s) \<longleftrightarrow>
         (\<exists>i. map_of (instances s) a = Some i \<and> now - lastAccess i > METRO_TIMEOUT)"
proof
  assume "a \<in> set (inactiveInstances now s)"
  then obtain i where "(a, i) \<in> set (instances s)" "idle now (a, i)"
    by (auto simp: inactiveInstances_def)
  with assms show "\<exists>i. map_of (instances s) a = Some i \<and> now - lastAccess i > METRO_TIMEOUT"
    by (auto simp: idle_def)
next
  assume "\<exists>i. map_of (instances s) a = Some i \<and> now - lastAccess i > METRO_TIMEOUT"
  then obtain i where i: "map_of (instances s) a = Some i" "now - lastAccess i > METRO_TIMEOUT"
    by blast
  from map_of_SomeD [OF i(1)] i(2) have "(a, i) \<in> set (filter (idle now) (instances s))"
    by (simp add: idle_def)
  then show "a \<in> set (inactiveInstances now s)"
    unfolding inactiveInstances_def by (metis fst_conv image_eqI set_map)
qed


lemma sweep_lookup:
  assumes "distinct (map fst (instances s))"
  shows "map_of (instances (cleanupInactiveInstances t now s)) a =
     (case map_of (instances s) a of
        None \<Rightarrow> None
      | Some i \<Rightarrow> if now - lastAccess i > METRO_TIMEOUT then None else Some i)"
proof (cases "map_of (instances s) a")
  case None
  then show ?thesis
    by (simp add: cleanupInactiveInstances_def stopAll_lookup)
next
  case (Some i)
  have "a \<in> set (inactiveInstances now s) \<longleftrightarrow> now - lastAccess i > METRO_TIMEOUT"
    unfolding inactive_iff [OF assms] using Some by simp
  with Some show ?thesis
    by (simp add: cleanupInactiveInstances_def stopAll_lookup)
qed

lemma sweepState_keys: "distinct (map fst (instances sweepState))"
  by (simp add: sweepState_def)






text \<open>
  C8 as stated fails: the sweep removes the record of an in-flight start (\<open>isReady\<close>
  false) once its \<open>lastAccess\<close> is older than the threshold.
\<close>

theorem sweep_reaps_pending_counterexample:
  "map_of (instances sweepState) ''app-3'' = Some pendingInstance \<and> \<not> isReady pendingInstance \<and>
   map_of (instances (cleanupInactiveInstances (killThrows demoEnv) 901000 sweepState)) ''app-3'' = None"
  using sweep_lookup [OF sweepState_keys, of "killThrows demoEnv" 901000 "''app-3''"]
  by (simp add: sweepState_def pendingInstance_def METRO_TIMEOUT_def)

text \<open>
  C8, amended. The sweep does not read \<open>isReady\<close>: a record that is not ready stays in
  the registry exactly when its \<open>lastAccess\<close> is within the threshold, and is removed
  otherwise, like any other record.
\<close>

theorem sweep_ignores_readiness:
  "distinct (map fst (instances s)) \<Longrightarrow> map_of (instances s) aid = Some inst \<Longrightarrow> \<not> isReady inst \<Longrightarrow>
   map_of (instances (cleanupInactiveInstances throws now s)) aid =
     (if now - lastAccess inst \<le> METRO_TIMEOUT then Some inst else None)"
  by (auto simp: sweep_lookup)

theorem sweep_ignores_readiness_witness:
  "distinct (map fst (instances sweepState)) \<and>
   map_of (instances sweepState) ''app-3'' = Some pendingInstance \<and> \<not> isReady pendingInstance \<and>
   map_of (instances (cleanupInactiveInstances (\<lambda>p. False) 900000 sweepState)) ''app-3'' = Some pendingInstance \<and>
   map_of (instances (cleanupInactiveInstances (\<lambda>p. False) 900001 sweepState)) ''app-3'' = None"
proof -
  have l: "map_of (instances sweepState) ''app-3'' = Some pendingInstance"
    by (simp add: sweepState_def)
  have r: "\<not> isReady pendingInstance" by (simp add: pendingInstance_def)
  show ?thesis
    using sweep_ignores_readiness [OF sweepState_keys l r, of "\<lambda>p. False" 900000]
          sweep_ignores_readiness [OF sweepState_keys l r, of "\<lambda>p. False" 900001]
          sweepState_keys l r
    by (simp add: pendingInstance_def METRO_TIMEOUT_def)
qed

section \<open>Starting: reuse, failure and cleanup\<close>

subsection \<open>The stages of a start\<close>


lemma provisionAndLaunch_Inr:
  assumes "provisionAndLaunch env aid nm files s = Inr (inst, s1)"
  shows "inst = \<lparr>appId = aid, appName = nm, process = nextPid s,
                 workspaceDir = path_join WORKSPACE_BASE aid,
                 port = portPool s ! (currentPortIndex s mod length (portPool s)),
                 tunnelUrl = None, bundleUrl = None,
                 startTime = clockStart env, lastAccess = clockInsert env, isReady = False\<rparr> \<and>
         instances s1 = AList.update aid inst (instances s) \<and>
         procs s1 = (procs s)(nextPid s \<mapsto>
            \<lparr>cwd = path_join WORKSPACE_BASE aid, portArg = port inst, signals = [], killed = False,
             exited = (spawnErrorEvent env \<noteq> None)\<rparr>) \<and>
         nextPid s1 = Suc (nextPid s) \<and> tunnels s1 = tunnels s \<and> killTimers s1 = killTimers s \<and>
         crashed s1 = crashed s \<and>
         currentPortIndex s1 = (currentPortIndex s + 1) mod length (portPool s) \<and>
         portPool s \<noteq> [] \<and>
         createWorkspace env (path_join WORKSPACE_BASE aid) files (fs s) = (None, fs s1) \<and>
         installError env = None \<and> spawnError env = None"
  using assms
  by (auto simp: provisionAndLaunch_def getNextPort_def startMetroProcess_def Let_def
      split: prod.splits option.splits if_splits sum.splits)

lemma provisionAndLaunch_reaches_insert:
  assumes "portPool s \<noteq> []" "portPool s ! (currentPortIndex s mod length (portPool s)) \<noteq> 0"
    "fst (createWorkspace env (path_join WORKSPACE_BASE aid) files (fs s)) = None"
    "installError env = None" "spawnError env = None"
  shows "\<exists>inst s1. provisionAndLaunch env aid nm files s = Inr (inst, s1)"
  using assms
  by (auto simp: provisionAndLaunch_def getNextPort_def startMetroProcess_def Let_def
      split: prod.splits option.splits if_splits sum.splits)

lemma launchFresh_cases:
  obtains (failed) msg s1 where "provisionAndLaunch env aid nm files s = Inl (msg, s1)"
      "launchFresh env aid nm files s = (Inl (Failed msg), s1)"
  | (crashed) inst s1 msg where "provisionAndLaunch env aid nm files s = Inr (inst, s1)"
      "spawnErrorEvent env = Some msg"
      "launchFresh env aid nm files s = (Inl (Crashed msg), s1\<lparr>crashed := True\<rparr>)"
  | (launched) inst s1 where "provisionAndLaunch env aid nm files s = Inr (inst, s1)"
      "spawnErrorEvent env = None"
      "launchFresh env aid nm files s = (Inr (process inst, port inst), s1)"
proof (cases "provisionAndLaunch env aid nm files s")
  case (Inl e)
  obtain msg s1 where e: "e = (msg, s1)" by (cases e)
  from Inl show ?thesis by (intro failed [of msg s1]) (simp_all add: e launchFresh_def)
next
  case (Inr v)
  obtain inst s1 where v: "v = (inst, s1)" by (cases v)
  show ?thesis
  proof (cases "spawnErrorEvent env")
    case None
    with Inr show ?thesis by (intro launched [of inst s1]) (simp_all add: v launchFresh_def)
  next
    case (Some msg)
    with Inr show ?thesis by (intro crashed [of inst s1 msg]) (simp_all add: v launchFresh_def)
  qed
qed

subsection \<open>The resumptions\<close>

lemma probed_ready:
  "waitForMetroReady (statusOk env) 30 \<Longrightarrow> probed env aid s = (None, s)"
  by (simp add: probed_def)


lemma connected_Started:
  assumes "connected env aid pr p s = (Started u b q, s1)"
  shows "ngrokConnect env = Some u \<and> u \<noteq> [] \<and> b = Some (u @ bundleSuffix) \<and> q = p \<and>
         s1 = markReady aid pr u (s\<lparr>tunnels := tunnels s @ [u]\<rparr>)"
  using assms
  by (cases "ngrokConnect env") (auto simp: connected_def createTunnel_def split: if_splits)


lemma connected_not_Crashed: "fst (connected env aid pr p s) \<noteq> Crashed msg"
  by (auto simp: connected_def split: prod.splits)

lemma markReady_lookup:
  "map_of (instances (markReady a pr u s)) b =
     (case map_of (instances s) b of
        None \<Rightarrow> None
      | Some cur \<Rightarrow>
          Some (if b = a \<and> process cur = pr
                then cur\<lparr>tunnelUrl := Some u, bundleUrl := Some (u @ bundleSuffix), isReady := True\<rparr>
                else cur))"
  by (auto simp: markReady_def update_conv' split: option.splits)

lemma markReady_keys:
  "distinct (map fst (instances s)) \<Longrightarrow> distinct (map fst (instances (markReady a pr u s)))"
  by (auto simp: markReady_def distinct_update split: option.splits)

lemma awaitReady_Started:
  assumes "awaitReady env aid pr p s = (Started u b q, s1)"
  shows "ngrokConnect env = Some u \<and> u \<noteq> [] \<and> b = Some (u @ bundleSuffix) \<and> q = p \<and>
         waitForMetroReady (statusOk env) 30 \<and>
         s1 = markReady aid pr u (s\<lparr>tunnels := tunnels s @ [u]\<rparr>)"
proof (cases "waitForMetroReady (statusOk env) 30")
  case True
  with assms have "connected env aid pr p s = (Started u b q, s1)"
    by (simp add: awaitReady_def probed_def)
  from connected_Started [OF this] True show ?thesis by simp
next
  case False
  with assms show ?thesis by (simp add: awaitReady_def probed_def)
qed


lemma awaitReady_not_Crashed: "fst (awaitReady env aid pr p s) \<noteq> Crashed msg"
  by (auto simp: awaitReady_def probed_def connected_not_Crashed)

text \<open>The uninterrupted start is the launch followed by the resumptions.\<close>

lemma startFresh_launchFresh:
  "startFresh env aid nm files s =
     (case launchFresh env aid nm files s of
        (Inl r, s1) \<Rightarrow> (r, s1)
      | (Inr (pr, p), s1) \<Rightarrow>
          awaitReady env aid pr p (if childCrashed env then childExit pr s1 else s1))"
  by (simp add: startFresh_def)

lemma startMetro_launch:
  "startMetro env aid nm files s =
     (case launch env aid nm files s of
        (Inl r, s1) \<Rightarrow> (r, s1)
      | (Inr (pr, p), s1) \<Rightarrow>
          awaitReady env aid pr p (if childCrashed env then childExit pr s1 else s1))"
  by (simp add: startMetro_def launch_def startFresh_def Let_def split: option.splits)

lemma start_in_pieces:
  assumes "launch env aid nm files s = (Inr (pr, p), s1)" "\<not> crashed s"
  shows "exec (Start env aid nm files) s =
     run ((if childCrashed env then [ChildExit pr] else []) @ [Probed env aid] @
          (if waitForMetroReady (statusOk env) 30 then [Connected env aid pr p] else []))
       (exec (Launch env aid nm files) s)"
proof -
  have c1: "crashed s1 = crashed s"
    using assms(1)
    by (auto simp: launch_def launchFresh_def Let_def
        dest: provisionAndLaunch_alloc split: option.splits if_splits sum.splits prod.splits)
  with assms(2) have n1: "\<not> crashed s1" by simp
  have l: "exec (Launch env aid nm files) s = s1"
    using assms by (simp add: exec_def)
  show ?thesis
    using assms n1
    by (simp add: l exec_def startMetro_launch awaitReady_def probed_def run_Cons run_Nil
        childExit_frame stopMetro_frame)
qed

subsection \<open>C5: the reuse path\<close>

lemma startMetro_reuse:
  assumes "map_of (instances s) aid = Some ex" "reusable ex"
  shows "startMetro env aid nm files s =
     (Started (the (tunnelUrl ex)) (bundleUrl ex) (port ex),
      s\<lparr>instances := AList.update aid (ex\<lparr>lastAccess := clockAccess env\<rparr>) (instances s)\<rparr>)"
  using assms by (simp add: startMetro_def)

lemma launched_state:
  assumes pl: "provisionAndLaunch env aid nm files s = Inr (inst, s0)"
  shows "map_of (instances (if c then childExit pr s0 else s0)) aid = Some inst"
    "instances (if c then childExit pr s0 else s0) = AList.update aid inst (instances s)"
    "tunnels (if c then childExit pr s0 else s0) = tunnels s"
    "killTimers (if c then childExit pr s0 else s0) = killTimers s"
    "nextPid (if c then childExit pr s0 else s0) = Suc (nextPid s)"
    "crashed (if c then childExit pr s0 else s0) = crashed s"
  using provisionAndLaunch_Inr [OF pl] by (simp_all add: childExit_frame update_conv')

lemma launched_inst:
  assumes pl: "provisionAndLaunch env aid nm files s = Inr (inst, s0)"
  shows "process inst = nextPid s"
    "port inst = portPool s ! (currentPortIndex s mod length (portPool s))"
  using provisionAndLaunch_Inr [OF pl] by simp_all


lemma startFresh_Started:
  assumes "startFresh env aid nm files s = (Started u b p, s1)"
  shows "\<exists>ex. map_of (instances s1) aid = Some ex \<and> reusable ex \<and>
              tunnelUrl ex = Some u \<and> bundleUrl ex = b \<and> port ex = p"
proof (cases rule: launchFresh_cases [of env aid nm files s])
  case (failed msg s0)
  with assms show ?thesis by (simp add: startFresh_def)
next
  case (crashed inst s0 msg)
  with assms show ?thesis by (simp add: startFresh_def)
next
  case (launched inst s0)
  let ?s0 = "if childCrashed env then childExit (process inst) s0 else s0"
  from assms launched have ar: "awaitReady env aid (process inst) (port inst) ?s0 = (Started u b p, s1)"
    by (simp add: startFresh_def)
  note L = launched_state [OF launched(1), of "childCrashed env" "process inst"]
  from awaitReady_Started [OF ar] L(1) show ?thesis
    by (simp add: markReady_lookup reusable_def)
qed

lemma startMetro_Started:
  assumes "startMetro env aid nm files s = (Started u b p, s1)"
  shows "\<exists>ex. map_of (instances s1) aid = Some ex \<and> reusable ex \<and>
              tunnelUrl ex = Some u \<and> bundleUrl ex = b \<and> port ex = p"
proof (cases "map_of (instances s) aid")
  case None
  with assms show ?thesis by (auto simp: startMetro_def dest: startFresh_Started)
next
  case (Some ex)
  show ?thesis
  proof (cases "reusable ex")
    case True
    have "truthy (tunnelUrl ex)" using True by (simp add: reusable_def)
    then obtain v where v: "tunnelUrl ex = Some v" by (cases "tunnelUrl ex") auto
    from assms show ?thesis
      unfolding startMetro_reuse [OF Some True] using True v
      by (auto simp: update_conv' reusable_def)
  next
    case False
    with Some assms show ?thesis by (auto simp: startMetro_def Let_def dest: startFresh_Started)
  qed
qed

text \<open>
  C5. After a successful start of an appId, a second start of the same appId returns the
  same tunnelUrl, bundleUrl and port. The state it leaves is the state before it with the
  record's \<open>lastAccess\<close> set to the time of the second request: the cursor of the
  allocator, the file system, the process table and the tunnels are untouched.
\<close>

theorem second_start_reuses:
  assumes "startMetro env1 aid nm1 files1 s = (Started u b p, s1)"
  shows "\<exists>ex. map_of (instances s1) aid = Some ex \<and> isReady ex \<and>
           startMetro env2 aid nm2 files2 s1 =
             (Started u b p,
              s1\<lparr>instances := AList.update aid (ex\<lparr>lastAccess := clockAccess env2\<rparr>) (instances s1)\<rparr>) \<and>
           map_of (instances (snd (startMetro env2 aid nm2 files2 s1))) aid =
             Some (ex\<lparr>lastAccess := clockAccess env2\<rparr>) \<and>
           currentPortIndex (snd (startMetro env2 aid nm2 files2 s1)) = currentPortIndex s1 \<and>
           fs (snd (startMetro env2 aid nm2 files2 s1)) = fs s1 \<and>
           procs (snd (startMetro env2 aid nm2 files2 s1)) = procs s1 \<and>
           nextPid (snd (startMetro env2 aid nm2 files2 s1)) = nextPid s1 \<and>
           tunnels (snd (startMetro env2 aid nm2 files2 s1)) = tunnels s1"
proof -
  from startMetro_Started [OF assms] obtain ex where
    ex: "map_of (instances s1) aid = Some ex" "reusable ex"
        "tunnelUrl ex = Some u" "bundleUrl ex = b" "port ex = p"
    by blast
  have "isReady ex" using ex(2) by (simp add: reusable_def)
  with ex startMetro_reuse [OF ex(1) ex(2), of env2 nm2 files2] show ?thesis
    by (auto simp: update_conv')
qed

theorem second_start_reuses_witness:
  "startMetro demoEnv ''app-1'' ''Demo'' demoFiles (newMetroService Map.empty) =
     (Started ''https://stub.example''
        (Some ''https://stub.example/index.bundle?platform=ios&dev=true&minify=false'') 8081,
      demoState) \<and>
   fst (startMetro secondEnv ''app-1'' ''Demo'' [] demoState) =
     Started ''https://stub.example''
        (Some ''https://stub.example/index.bundle?platform=ios&dev=true&minify=false'') 8081 \<and>
   map_of (instances (snd (startMetro secondEnv ''app-1'' ''Demo'' [] demoState))) ''app-1'' =
     Some (demoInstance\<lparr>lastAccess := 2000\<rparr>) \<and>
   currentPortIndex (snd (startMetro secondEnv ''app-1'' ''Demo'' [] demoState)) = 1 \<and>
   nextPid (snd (startMetro secondEnv ''app-1'' ''Demo'' [] demoState)) = nextPid demoState"
proof -
  from second_start_reuses [OF demo_start, of secondEnv "''Demo''" "[]"]
  obtain ex where ex: "map_of (instances demoState) ''app-1'' = Some ex"
    and r: "startMetro secondEnv ''app-1'' ''Demo'' [] demoState =
             (Started ''https://stub.example''
                (Some ''https://stub.example/index.bundle?platform=ios&dev=true&minify=false'') 8081,
              demoState\<lparr>instances := AList.update ''app-1'' (ex\<lparr>lastAccess := clockAccess secondEnv\<rparr>)
                  (instances demoState)\<rparr>)"
    by blast
  from ex have "ex = demoInstance" by (simp add: demo_instances)
  with r demo_start show ?thesis
    by (simp add: demo_instances demo_cursor secondEnv_def)
qed

subsection \<open>A start that fails after the launch\<close>

lemma startFresh_Failed:
  assumes "startFresh env aid nm files s = (Failed msg, s1)"
  shows "provisionAndLaunch env aid nm files s = Inl (msg, s1) \<or>
         (\<exists>inst s0. provisionAndLaunch env aid nm files s = Inr (inst, s0) \<and>
            spawnErrorEvent env = None \<and>
            awaitReady env aid (process inst) (port inst)
              (if childCrashed env then childExit (process inst) s0 else s0) = (Failed msg, s1))"
proof (cases rule: launchFresh_cases [of env aid nm files s])
  case (failed m s0)
  with assms show ?thesis by (simp add: startFresh_def)
next
  case (crashed inst s0 m)
  with assms show ?thesis by (simp add: startFresh_def)
next
  case (launched inst s0)
  with assms show ?thesis by (simp add: startFresh_def)
qed

lemma startFresh_Crashed:
  assumes "startFresh env aid nm files s = (Crashed msg, s1)"
  shows "\<exists>inst s0. provisionAndLaunch env aid nm files s = Inr (inst, s0) \<and>
            spawnErrorEvent env = Some msg \<and> s1 = s0\<lparr>crashed := True\<rparr>"
proof (cases rule: launchFresh_cases [of env aid nm files s])
  case (failed m s0)
  with assms show ?thesis by (simp add: startFresh_def)
next
  case (crashed inst s0 m)
  with assms show ?thesis by (simp add: startFresh_def)
next
  case (launched inst s0)
  with assms awaitReady_not_Crashed [of env aid "process inst" "port inst"
      "if childCrashed env then childExit (process inst) s0 else s0" msg]
  show ?thesis by (simp add: startFresh_def)
qed


subsection \<open>C4: a start that fails\<close>













section \<open>The n-th call of the allocator\<close>

lemma demo_crashed: "\<not> crashed demoState"
  by (simp add: demo_defs demoEnv_def demo_ready)

lemma startFresh_port:
  assumes "startFresh env aid nm files s = (Started u b p, s1)"
  shows "p = portPool s ! (currentPortIndex s mod length (portPool s))"
proof (cases rule: launchFresh_cases [of env aid nm files s])
  case (failed msg s0)
  with assms show ?thesis by (simp add: startFresh_def)
next
  case (crashed inst s0 msg)
  with assms show ?thesis by (simp add: startFresh_def)
next
  case (launched inst s0)
  with assms have "awaitReady env aid (process inst) (port inst)
      (if childCrashed env then childExit (process inst) s0 else s0) = (Started u b p, s1)"
    by (simp add: startFresh_def)
  from awaitReady_Started [OF this] launched_inst [OF launched(1)] show ?thesis by simp
qed

lemma startMetro_port:
  assumes al: "allocates (Start env aid nm files) s"
    and st: "fst (startMetro env aid nm files s) = Started u b p"
  shows "p = portPool s ! (currentPortIndex s mod length (portPool s))"
proof (cases "map_of (instances s) aid")
  case None
  with st have "startFresh env aid nm files s = (Started u b p, snd (startFresh env aid nm files s))"
    by (simp add: startMetro_def prod_eq_iff)
  from startFresh_port [OF this] show ?thesis .
next
  case (Some ex)
  let ?s0 = "s\<lparr>instances := AList.update aid (ex\<lparr>lastAccess := clockAccess env\<rparr>) (instances s)\<rparr>"
  from al Some have "\<not> reusable ex" by simp
  with st Some have "startFresh env aid nm files ?s0 =
      (Started u b p, snd (startFresh env aid nm files ?s0))"
    by (simp add: startMetro_def prod_eq_iff)
  from startFresh_port [OF this] show ?thesis by simp
qed

text \<open>
  C2. Counting from 0, the n-th call of the allocator on a freshly constructed service
  returns the pool element at index n mod 100 of the range 8081..8180: for successive
  calls (first part); for the call that follows any run of start, stop, sweep and
  shutdown requests, where n is the number of calls made by the starts of the run (second
  part); and for the port a successful start reports, when that start is the n-th caller
  (third part). The allocator returns \<open>null\<close> exactly when the pool is empty.
\<close>

theorem allocator_round_robin:
  "(\<forall>n<k. nextPorts k (newMetroService f) ! n = Some ([8081..<8181] ! (n mod 100))) \<and>
   fst (getNextPort (run rs (newMetroService f))) =
     Some ([8081..<8181] ! (allocations rs (newMetroService f) mod 100)) \<and>
   (allocates (Start env aid nm files) (run rs (newMetroService f)) \<and>
    fst (startMetro env aid nm files (run rs (newMetroService f))) = Started u b p \<longrightarrow>
      p = [8081..<8181] ! (allocations rs (newMetroService f) mod 100)) \<and>
   (fst (getNextPort s) = None \<longleftrightarrow> portPool s = [])"
proof -
  let ?s = "run rs (newMetroService f)"
  have A: "nextPorts k (newMetroService f) ! n = Some ([8081..<8181] ! (n mod 100))" if "n < k" for n
    using nextPorts_nth [of n k "newMetroService f"] that by (simp add: pool_fresh cursor_fresh)
  have c: "currentPortIndex ?s mod 100 = allocations rs (newMetroService f) mod 100"
    using run_cursor [of "newMetroService f" rs] by (simp add: pool_fresh cursor_fresh)
  have pl: "portPool ?s = [8081..<8181]" by (simp add: run_pool pool_fresh)
  have B: "fst (getNextPort ?s) = Some ([8081..<8181] ! (allocations rs (newMetroService f) mod 100))"
    using c by (simp add: getNextPort_value pl)
  have C: "p = [8081..<8181] ! (allocations rs (newMetroService f) mod 100)"
    if "allocates (Start env aid nm files) ?s \<and> fst (startMetro env aid nm files ?s) = Started u b p"
  proof -
    from that startMetro_port [of env aid nm files ?s u b p]
    have "p = portPool ?s ! (currentPortIndex ?s mod length (portPool ?s))" by blast
    with c show ?thesis by (simp add: pl)
  qed
  have D: "fst (getNextPort s) = None \<longleftrightarrow> portPool s = []"
    by (simp add: getNextPort_value)
  from A B C D show ?thesis by blast
qed

theorem allocator_round_robin_witness:
  "(100::nat) < 101 \<and>
   nextPorts 101 (newMetroService Map.empty) ! 100 = Some 8081 \<and>
   fst (getNextPort (run [Start demoEnv ''app-1'' ''Demo'' demoFiles, Stop (\<lambda>p. False) ''app-1'']
                       (newMetroService Map.empty))) = Some 8082 \<and>
   allocates (Start demoEnv ''app-2'' ''Other'' demoFiles)
     (run [Start demoEnv ''app-1'' ''Demo'' demoFiles, Stop (\<lambda>p. False) ''app-1'']
        (newMetroService Map.empty)) \<and>
   fst (startMetro demoEnv ''app-2'' ''Other'' demoFiles
          (run [Start demoEnv ''app-1'' ''Demo'' demoFiles, Stop (\<lambda>p. False) ''app-1'']
             (newMetroService Map.empty))) =
     Started ''https://stub.example''
        (Some ''https://stub.example/index.bundle?platform=ios&dev=true&minify=false'') 8082"
proof -
  let ?rs = "[Start demoEnv ''app-1'' ''Demo'' demoFiles, Stop (\<lambda>p. False) ''app-1'']"
  let ?s = "run ?rs (newMetroService Map.empty)"
  have e1: "exec (Start demoEnv ''app-1'' ''Demo'' demoFiles) (newMetroService Map.empty) = demoState"
    by (simp add: exec_def crashed_fresh demoState_def)
  have r: "?s = snd (stopMetro (\<lambda>p. False) ''app-1'' demoState)"
    by (simp add: run_Cons run_Nil e1) (simp add: exec_def demo_crashed)
  have i: "instances ?s = []"
    unfolding r by (simp add: stopMetro_instances demo_instances)
  have al: "allocates (Start demoEnv ''app-2'' ''Other'' demoFiles) ?s"
    by (simp only: allocates.simps i) simp
  have cw: "fst (createWorkspace demoEnv (path_join WORKSPACE_BASE ''app-2'') demoFiles (fs ?s)) = None"
  proof -
    have "fs ?s = fs demoState" unfolding r by (simp add: stopMetro_frame)
    moreover have "path_join WORKSPACE_BASE ''app-2'' = [''tmp'', ''metro-apps'', ''app-2'']"
      by (simp add: path_join_def WORKSPACE_BASE_def)
    moreover have "fst (createWorkspace demoEnv [''tmp'', ''metro-apps'', ''app-2''] demoFiles (fs demoState)) = None"
      using demo_bases
      by (simp add: basesOk_def createWorkspace_def rm_rf_def mkdir_p_def Let_def demoEnv_def
          demoFiles_def path_join_def dirname_def trailingSlash_def writeFile_def)
    ultimately show ?thesis by simp
  qed
  note T = allocator_round_robin [of 101 Map.empty ?rs demoEnv "''app-2''" "''Other''" demoFiles _ _ _
      "newMetroService Map.empty"]
  from T have 1: "nextPorts 101 (newMetroService Map.empty) ! 100 = Some 8081"
    and 2: "fst (getNextPort ?s) = Some 8082"
    by (simp_all add: instances_fresh crashed_fresh)
  have p: "portPool ?s \<noteq> [] \<and> portPool ?s ! (currentPortIndex ?s mod length (portPool ?s)) \<noteq> 0"
    using 2 by (simp add: getNextPort_value split: if_splits)
  from provisionAndLaunch_reaches_insert [of ?s demoEnv "''app-2''" demoFiles "''Other''"] p cw
  obtain inst s1 where pl: "provisionAndLaunch demoEnv ''app-2'' ''Other'' demoFiles ?s = Inr (inst, s1)"
    by (auto simp: demoEnv_def)
  have ev: "spawnErrorEvent demoEnv = None" "childCrashed demoEnv = False"
    "waitForMetroReady (statusOk demoEnv) 30"
    by (simp_all add: demoEnv_def demo_ready)
  have "\<exists>u b q. fst (startMetro demoEnv ''app-2'' ''Other'' demoFiles ?s) = Started u b q \<and>
      u = ''https://stub.example'' \<and>
      b = Some ''https://stub.example/index.bundle?platform=ios&dev=true&minify=false'' \<and>
      q = port inst"
    by (simp add: startMetro_def i startFresh_def launchFresh_def pl awaitReady_def probed_def
          connected_def createTunnel_def ev)
       (simp add: demoEnv_def demo_ready bundleSuffix_def)
  then have st: "fst (startMetro demoEnv ''app-2'' ''Other'' demoFiles ?s) =
      Started ''https://stub.example''
        (Some ''https://stub.example/index.bundle?platform=ios&dev=true&minify=false'') (port inst)"
    by simp
  from T al st have "port inst = [8081..<8181] ! (allocations ?rs (newMetroService Map.empty) mod 100)"
    by blast
  then have "port inst = 8082" by (simp add: instances_fresh crashed_fresh)
  with 1 2 al st show ?thesis by simp
qed

section \<open>Starting over an unfinished start\<close>




section \<open>What provisioning leaves in the workspace\<close>

lemma fileAt_Some: "fileAt f q = Some c \<longleftrightarrow> f q = Some (File c)"
  by (auto simp: fileAt_def split: option.splits node.splits)

lemma isFile_fileAt: "isFile (f q) \<longleftrightarrow> fileAt f q \<noteq> None"
  by (cases "f q" rule: isFile.cases) (auto simp: fileAt_def)

lemma mkdir_p_Inr:
  assumes "mkdir_p p f = Inr f1"
  shows "f1 = (\<lambda>q. if prefix q p then Some Dir else f q)" and "prefix q p \<Longrightarrow> \<not> isFile (f q)"
  using assms
  by (auto simp: mkdir_p_def list_ex_iff in_set_prefixes split: if_splits)

lemma mkdir_p_fileAt:
  assumes "mkdir_p p f = Inr f1"
  shows "fileAt f1 q = fileAt f q"
proof (cases "prefix q p")
  case True
  from mkdir_p_Inr(2) [OF assms True] have "fileAt f q = None"
    by (simp only: isFile_fileAt) simp
  moreover have "fileAt f1 q = None"
    using True by (simp add: mkdir_p_Inr(1) [OF assms] fileAt_def)
  ultimately show ?thesis by simp
next
  case False
  then show ?thesis by (simp add: mkdir_p_Inr(1) [OF assms] fileAt_def)
qed

lemma writeFile_Inr:
  assumes "writeFile ioErr p c f = Inr f2"
  shows "f2 = f(p \<mapsto> File c)"
  using assms by (auto simp: writeFile_def split: option.splits if_splits)

lemma writeFiles_fileAt:
  "writeFiles ioErr ws files f = (None, f') \<Longrightarrow>
   fileAt f' q = (case map_of (rev (targets ws files)) q of Some c \<Rightarrow> Some c | None \<Rightarrow> fileAt f q)"
proof (induction files arbitrary: f)
  case Nil
  then show ?case by (simp add: targets_def)
next
  case (Cons e files)
  obtain k c where e: "e = (k, c)" by (cases e)
  from Cons.prems obtain f1 f2 where
    m: "mkdir_p (dirname (path_join ws k)) f = Inr f1"
    and w: "writeFile ioErr (path_join ws k) c f1 = Inr f2"
    and r: "writeFiles ioErr ws files f2 = (None, f')"
    by (auto simp: e split: sum.splits if_splits)
  have f2: "fileAt f2 q = (if q = path_join ws k then Some c else fileAt f q)"
    using mkdir_p_fileAt [OF m, of q] by (simp add: writeFile_Inr [OF w] fileAt_def)
  have t: "map_of (rev (targets ws (e # files))) q =
      (case map_of (rev (targets ws files)) q of
         Some c' \<Rightarrow> Some c'
       | None \<Rightarrow> if q = path_join ws k then Some c else None)"
    by (simp add: targets_def e map_add_def split: option.splits)
  from Cons.IH [OF r] f2 show ?case
    unfolding t by (cases "map_of (rev (targets ws files)) q") simp_all
qed

lemma createWorkspace_fileAt:
  assumes "createWorkspace env ws files f = (None, f')"
  shows "fileAt f' q =
     (case map_of (rev (targets ws files)) q of
        Some c \<Rightarrow> Some c
      | None \<Rightarrow> if \<not> rmThrows env \<and> prefix ws q then None else fileAt f q)"
proof -
  let ?f0 = "if rmThrows env then f else rm_rf ws f"
  from assms obtain f1 where m: "mkdir_p ws ?f0 = Inr f1"
    and w: "writeFiles (ioError env) ws files f1 = (None, f')"
    by (auto simp: createWorkspace_def Let_def split: sum.splits)
  have "fileAt f1 q = fileAt ?f0 q" by (rule mkdir_p_fileAt [OF m])
  also have "\<dots> = (if \<not> rmThrows env \<and> prefix ws q then None else fileAt f q)"
    by (simp add: rm_rf_def fileAt_def)
  finally have "fileAt f1 q = (if \<not> rmThrows env \<and> prefix ws q then None else fileAt f q)" .
  with writeFiles_fileAt [OF w, of q] show ?thesis
    by (cases "map_of (rev (targets ws files)) q") simp_all
qed

lemma map_of_rev_distinct:
  "distinct (map fst xs) \<Longrightarrow> map_of (rev xs) q = Some c \<longleftrightarrow> (q, c) \<in> set xs"
proof -
  assume "distinct (map fst xs)"
  then have "distinct (map fst (rev xs))" by (simp add: rev_map [symmetric])
  from map_of_eq_Some_iff [OF this] show ?thesis by simp
qed

lemma provision_failure_no_launch:
  assumes "fst (createWorkspace env (path_join WORKSPACE_BASE aid) files (fs s)) = Some msg"
    and "portPool s \<noteq> []" "portPool s ! (currentPortIndex s mod length (portPool s)) \<noteq> 0"
  shows "\<exists>s1. provisionAndLaunch env aid nm files s = Inl (msg, s1) \<and>
              procs s1 = procs s \<and> nextPid s1 = nextPid s"
  using assms
  by (auto simp: provisionAndLaunch_def getNextPort_def split: prod.splits option.splits)

text \<open>
  C9, amended. After a successful \<open>createWorkspace\<close>, every path some entry was
  written to holds the content of the last entry written there. If \<open>fs.rm\<close> did not
  throw, the files below the workspace are those paths and no others; if moreover the
  entries go to pairwise different paths, a path below the workspace holds a file with
  content \<open>c\<close> exactly when the mapping has an entry with content \<open>c\<close> that
  \<open>path.join\<close> sends there. When \<open>createWorkspace\<close> fails, \<open>startMetro\<close> returns
  the failure with its message and launches no process.
\<close>

theorem provision_writes_files:
  "(createWorkspace env ws files f = (None, f') \<longrightarrow>
      (\<forall>q c. map_of (rev (targets ws files)) q = Some c \<longrightarrow> f' q = Some (File c)) \<and>
      (\<not> rmThrows env \<longrightarrow>
         (\<forall>q. prefix ws q \<longrightarrow> fileAt f' q = map_of (rev (targets ws files)) q)) \<and>
      (\<not> rmThrows env \<and> distinct (map fst (targets ws files)) \<longrightarrow>
         (\<forall>q c. prefix ws q \<longrightarrow>
            (f' q = Some (File c) \<longleftrightarrow> (\<exists>k. (k, c) \<in> set files \<and> path_join ws k = q))))) \<and>
   (fst (createWorkspace env (path_join WORKSPACE_BASE aid) files (fs s)) = Some msg \<and>
    (\<forall>ex. map_of (instances s) aid = Some ex \<longrightarrow> \<not> reusable ex) \<and>
    portPool s \<noteq> [] \<and> portPool s ! (currentPortIndex s mod length (portPool s)) \<noteq> 0 \<longrightarrow>
      fst (startMetro env aid nm files s) = Failed msg \<and>
      procs (snd (startMetro env aid nm files s)) = procs s \<and>
      nextPid (snd (startMetro env aid nm files s)) = nextPid s)"
proof -
  have A: "(\<forall>q c. map_of (rev (targets ws files)) q = Some c \<longrightarrow> f' q = Some (File c)) \<and>
      (\<not> rmThrows env \<longrightarrow>
         (\<forall>q. prefix ws q \<longrightarrow> fileAt f' q = map_of (rev (targets ws files)) q)) \<and>
      (\<not> rmThrows env \<and> distinct (map fst (targets ws files)) \<longrightarrow>
         (\<forall>q c. prefix ws q \<longrightarrow>
            (f' q = Some (File c) \<longleftrightarrow> (\<exists>k. (k, c) \<in> set files \<and> path_join ws k = q))))"
    if ok: "createWorkspace env ws files f = (None, f')"
  proof (intro conjI allI impI)
    fix q c assume "map_of (rev (targets ws files)) q = Some c"
    with createWorkspace_fileAt [OF ok, of q] have "fileAt f' q = Some c" by simp
    then show "f' q = Some (File c)" by (simp only: fileAt_Some)
  next
    fix q assume "\<not> rmThrows env" "prefix ws q"
    with createWorkspace_fileAt [OF ok, of q]
    show "fileAt f' q = map_of (rev (targets ws files)) q"
      by (simp split: option.splits)
  next
    fix q c
    assume h: "\<not> rmThrows env \<and> distinct (map fst (targets ws files))" and p: "prefix ws q"
    from h p createWorkspace_fileAt [OF ok, of q]
    have "fileAt f' q = map_of (rev (targets ws files)) q"
      by (simp split: option.splits)
    then have "f' q = Some (File c) \<longleftrightarrow> map_of (rev (targets ws files)) q = Some c"
      by (simp only: fileAt_Some [symmetric])
    also have "\<dots> \<longleftrightarrow> (q, c) \<in> set (targets ws files)"
      using h by (simp only: map_of_rev_distinct)
    also have "\<dots> \<longleftrightarrow> (\<exists>k. (k, c) \<in> set files \<and> path_join ws k = q)"
      by (auto simp: targets_def)
    finally show "f' q = Some (File c) \<longleftrightarrow> (\<exists>k. (k, c) \<in> set files \<and> path_join ws k = q)" .
  qed
  have B: "fst (startMetro env aid nm files s) = Failed msg \<and>
      procs (snd (startMetro env aid nm files s)) = procs s \<and>
      nextPid (snd (startMetro env aid nm files s)) = nextPid s"
    if h: "fst (createWorkspace env (path_join WORKSPACE_BASE aid) files (fs s)) = Some msg \<and>
      (\<forall>ex. map_of (instances s) aid = Some ex \<longrightarrow> \<not> reusable ex) \<and>
      portPool s \<noteq> [] \<and> portPool s ! (currentPortIndex s mod length (portPool s)) \<noteq> 0"
  proof -
    define s0 where "s0 = (case map_of (instances s) aid of None \<Rightarrow> s
       | Some ex \<Rightarrow> s\<lparr>instances :=
                      AList.update aid (ex\<lparr>lastAccess := clockAccess env\<rparr>) (instances s)\<rparr>)"
    have sm: "startMetro env aid nm files s = startFresh env aid nm files s0"
      using h by (auto simp: startMetro_def s0_def split: option.splits)
    have s0: "fs s0 = fs s" "portPool s0 = portPool s" "currentPortIndex s0 = currentPortIndex s"
      "procs s0 = procs s" "nextPid s0 = nextPid s"
      by (simp_all add: s0_def split: option.splits)
    from h s0 provision_failure_no_launch [of env aid files s0 msg nm]
    obtain s1 where "provisionAndLaunch env aid nm files s0 = Inl (msg, s1)"
      "procs s1 = procs s" "nextPid s1 = nextPid s" by auto
    then show ?thesis by (simp add: sm startFresh_def launchFresh_def)
  qed
  from A B show ?thesis by blast
qed

lemmas fs_defs = createWorkspace_def mkdir_p_def path_join_def rm_rf_def writeFile_def dirname_def
    trailingSlash_def Let_def demoEnv_def

text \<open>
  C9 as stated fails in three ways, each with a successful \<open>createWorkspace\<close>: two keys
  that \<open>path.join\<close> sends to one path leave one file with the later content; when
  \<open>fs.rm\<close> throws, the error is swallowed and a file that was there before stays; a
  key with \<open>..\<close> is written outside the workspace.
\<close>

theorem provision_not_exact_counterexample:
  "fst (createWorkspace demoEnv [''tmp'', ''metro-apps'', ''app-1'']
          [(''a.js'', ''1''), (''./a.js'', ''2'')] emptyFs) = None \<and>
   snd (createWorkspace demoEnv [''tmp'', ''metro-apps'', ''app-1'']
          [(''a.js'', ''1''), (''./a.js'', ''2'')] emptyFs)
       [''tmp'', ''metro-apps'', ''app-1'', ''a.js''] = Some (File ''2'') \<and>
   fst (createWorkspace rmRefused [''tmp'', ''metro-apps'', ''app-1''] demoFiles staleFs) = None \<and>
   snd (createWorkspace rmRefused [''tmp'', ''metro-apps'', ''app-1''] demoFiles staleFs)
       [''tmp'', ''metro-apps'', ''app-1'', ''old.js''] = Some (File ''stale'') \<and>
   fst (createWorkspace demoEnv [''tmp'', ''metro-apps'', ''app-1'']
          [(''../app-2/index.js'', ''x'')] emptyFs) = None \<and>
   snd (createWorkspace demoEnv [''tmp'', ''metro-apps'', ''app-1'']
          [(''../app-2/index.js'', ''x'')] emptyFs)
       [''tmp'', ''metro-apps'', ''app-2'', ''index.js''] = Some (File ''x'')"
  by (simp add: fs_defs rmRefused_def staleFs_def demoFiles_def emptyFs_def)

lemma stale_provision_ok:
  "createWorkspace demoEnv [''tmp'', ''metro-apps'', ''app-1''] demoFiles staleFs =
     (None, snd (createWorkspace demoEnv [''tmp'', ''metro-apps'', ''app-1''] demoFiles staleFs))"
proof -
  have "fst (createWorkspace demoEnv [''tmp'', ''metro-apps'', ''app-1''] demoFiles staleFs) = None"
    by (simp add: fs_defs staleFs_def demoFiles_def)
  then show ?thesis by (simp add: prod_eq_iff)
qed

lemma demo_targets:
  "targets [''tmp'', ''metro-apps'', ''app-1''] demoFiles =
     [([''tmp'', ''metro-apps'', ''app-1'', ''index.js''], ''console.log(1)'')]"
  by (simp add: targets_def demoFiles_def path_join_def)

lemma diskFull_provision:
  "fst (createWorkspace diskFull (path_join WORKSPACE_BASE ''app-1'') demoFiles
          (fs (newMetroService Map.empty))) = Some ''ENOSPC: no space left on device, write''"
  by (simp add: fs_defs diskFull_def demoFiles_def WORKSPACE_BASE_def newMetroService_def
      ensureWorkspaceDir_def initializePortPool_def)

theorem provision_writes_files_witness:
  "createWorkspace demoEnv [''tmp'', ''metro-apps'', ''app-1''] demoFiles staleFs =
     (None, snd (createWorkspace demoEnv [''tmp'', ''metro-apps'', ''app-1''] demoFiles staleFs)) \<and>
   \<not> rmThrows demoEnv \<and>
   snd (createWorkspace demoEnv [''tmp'', ''metro-apps'', ''app-1''] demoFiles staleFs)
       [''tmp'', ''metro-apps'', ''app-1'', ''index.js''] = Some (File ''console.log(1)'') \<and>
   staleFs [''tmp'', ''metro-apps'', ''app-1'', ''old.js''] = Some (File ''stale'') \<and>
   fileAt (snd (createWorkspace demoEnv [''tmp'', ''metro-apps'', ''app-1''] demoFiles staleFs))
       [''tmp'', ''metro-apps'', ''app-1'', ''old.js''] = None \<and>
   fst (createWorkspace diskFull (path_join WORKSPACE_BASE ''app-1'') demoFiles
          (fs (newMetroService Map.empty))) = Some ''ENOSPC: no space left on device, write'' \<and>
   fst (startMetro diskFull ''app-1'' ''Demo'' demoFiles (newMetroService Map.empty)) =
     Failed ''ENOSPC: no space left on device, write'' \<and>
   nextPid (snd (startMetro diskFull ''app-1'' ''Demo'' demoFiles (newMetroService Map.empty))) = 0"
proof -
  let ?ws = "[''tmp'', ''metro-apps'', ''app-1'']"
  let ?f' = "snd (createWorkspace demoEnv ?ws demoFiles staleFs)"
  note T = provision_writes_files [where env = demoEnv and ws = ?ws and files = demoFiles
      and f = staleFs and f' = ?f']
  note U = provision_writes_files [where env = diskFull and files = demoFiles and aid = "''app-1''"
      and s = "newMetroService Map.empty" and msg = "''ENOSPC: no space left on device, write''"
      and nm = "''Demo''"]
  have nr: "\<not> rmThrows demoEnv" by (simp add: demoEnv_def)
  from T stale_provision_ok
  have 1: "\<forall>q c. map_of (rev (targets ?ws demoFiles)) q = Some c \<longrightarrow> ?f' q = Some (File c)"
    and 2: "\<not> rmThrows demoEnv \<longrightarrow>
         (\<forall>q. prefix ?ws q \<longrightarrow> fileAt ?f' q = map_of (rev (targets ?ws demoFiles)) q)"
    by blast+
  from 1 have a: "?f' [''tmp'', ''metro-apps'', ''app-1'', ''index.js''] = Some (File ''console.log(1)'')"
    by (simp add: demo_targets)
  from 2 nr have "fileAt ?f' [''tmp'', ''metro-apps'', ''app-1'', ''old.js''] =
      map_of (rev (targets ?ws demoFiles)) [''tmp'', ''metro-apps'', ''app-1'', ''old.js'']"
    by simp
  then have b: "fileAt ?f' [''tmp'', ''metro-apps'', ''app-1'', ''old.js''] = None"
    by (simp add: demo_targets)
  have s: "staleFs [''tmp'', ''metro-apps'', ''app-1'', ''old.js''] = Some (File ''stale'')"
    by (simp add: staleFs_def)
  have pre: "(\<forall>ex. map_of (instances (newMetroService Map.empty)) ''app-1'' = Some ex \<longrightarrow> \<not> reusable ex) \<and>
      portPool (newMetroService Map.empty) \<noteq> [] \<and>
      portPool (newMetroService Map.empty) !
        (currentPortIndex (newMetroService Map.empty) mod length (portPool (newMetroService Map.empty))) \<noteq> 0"
    using pool_nth [of 0] pool_length
    by (auto simp: instances_fresh pool_fresh' cursor_fresh)
  from U diskFull_provision pre
  have c: "fst (startMetro diskFull ''app-1'' ''Demo'' demoFiles (newMetroService Map.empty)) =
     Failed ''ENOSPC: no space left on device, write'' \<and>
     nextPid (snd (startMetro diskFull ''app-1'' ''Demo'' demoFiles (newMetroService Map.empty))) =
       nextPid (newMetroService Map.empty)"
    by blast
  from stale_provision_ok nr a s b diskFull_provision c show ?thesis
    by (simp add: nextPid_fresh)
qed

section \<open>Removal and termination\<close>











end
